theory Spec2Isabelle
  imports Main "HOL-Library.Word" "HOL-Library.Signed_Division"
begin

unbundle bit_operations_syntax

section \<open>The HCI engine of the NINA adapter\<close>

text \<open>
  A shallow embedding of the HCI transport engine (\<^verbatim>\<open>hci\<close>: \<^verbatim>\<open>poll\<close>,
  \<^verbatim>\<open>handleEventData\<close>, \<^verbatim>\<open>sendCommandWithParams\<close> and the command helpers) and of
  the orchestration built on it (\<^verbatim>\<open>Scan\<close>, \<^verbatim>\<open>Connect\<close> of \<^verbatim>\<open>gap_nina.go\<close>).

  The repository holds two generations of the engine under the same build tag. The
  embedding follows the later one: the engine with the \<^verbatim>\<open>leAdvertisingReport\<close> and
  \<^verbatim>\<open>leConnectData\<close> slots and the \<^verbatim>\<open>Scan\<close>/\<^verbatim>\<open>Connect\<close> that read those slots. The
  frame assembler of the earlier generation is embedded as \<open>poll_loop_v1\<close>, next to the
  current one, because its answer to an unknown packet type differs.

  Conventions.
  \<^item> \<^verbatim>\<open>uint8\<close>, \<^verbatim>\<open>uint16\<close>, \<^verbatim>\<open>int64\<close> are \<open>8 word\<close>, \<open>16 word\<close>, \<open>64 word\<close>: arithmetic
    wraps as in Go. \<^verbatim>\<open>int8\<close> is an \<open>8 word\<close> read with \<open>sint\<close>. Go's \<^verbatim>\<open>int\<close> indices and
    lengths are \<open>nat\<close>: they are lengths of slices and sums of a byte and a small
    constant, far from the bounds of \<^verbatim>\<open>int\<close>.
  \<^item> A Go error return is an \<open>error option\<close> returned together with the state, since
    the mutations made before a \<^verbatim>\<open>return err\<close> stay. A run-time panic (index or slice
    bounds out of range) is \<open>Inl Panic\<close>. Loops that wait on the transport or the clock
    take fuel; \<open>Inl OutOfFuel\<close> means that the loop was still running when the fuel ended.
  \<^item> \<^verbatim>\<open>_debug\<close> is \<^verbatim>\<open>false\<close>: the \<^verbatim>\<open>println\<close> branches are left out.
  \<^item> \<^verbatim>\<open>time.Sleep\<close> changes no variable of the program; the passing of time is in the
    readings of the clock, which are arbitrary.
\<close>

subsection \<open>Constants\<close>

type_synonym byte = "8 word"

abbreviation OGF_LINK_CTL :: "16 word" where "OGF_LINK_CTL \<equiv> 0x01"
abbreviation OGF_HOST_CTL :: "16 word" where "OGF_HOST_CTL \<equiv> 0x03"
abbreviation OGF_LE_CTL :: "16 word" where "OGF_LE_CTL \<equiv> 0x08"

abbreviation LE_META_EVENT_CONN_COMPLETE :: byte where "LE_META_EVENT_CONN_COMPLETE \<equiv> 0x01"
abbreviation LE_META_EVENT_ADVERTISING_REPORT :: byte where "LE_META_EVENT_ADVERTISING_REPORT \<equiv> 0x02"
abbreviation LE_META_EVENT_LONG_TERM_KEY_REQUEST :: byte where "LE_META_EVENT_LONG_TERM_KEY_REQUEST \<equiv> 0x05"
abbreviation LE_META_EVENT_REMOTE_CONN_PARAM_REQ :: byte where "LE_META_EVENT_REMOTE_CONN_PARAM_REQ \<equiv> 0x06"
abbreviation LE_META_EVENT_READ_LOCAL_P256_COMPLETE :: byte where "LE_META_EVENT_READ_LOCAL_P256_COMPLETE \<equiv> 0x08"
abbreviation LE_META_EVENT_GENERATE_DH_KEY_COMPLETE :: byte where "LE_META_EVENT_GENERATE_DH_KEY_COMPLETE \<equiv> 0x09"
abbreviation LE_META_EVENT_ENHANCED_CONNECTION_COMPLETE :: byte where "LE_META_EVENT_ENHANCED_CONNECTION_COMPLETE \<equiv> 0x0A"

abbreviation HCI_COMMAND_PKT :: byte where "HCI_COMMAND_PKT \<equiv> 0x01"
abbreviation HCI_ACLDATA_PKT :: byte where "HCI_ACLDATA_PKT \<equiv> 0x02"
abbreviation HCI_EVENT_PKT :: byte where "HCI_EVENT_PKT \<equiv> 0x04"

abbreviation EVT_DISCONN_COMPLETE :: byte where "EVT_DISCONN_COMPLETE \<equiv> 0x05"
abbreviation EVT_ENCRYPTION_CHANGE :: byte where "EVT_ENCRYPTION_CHANGE \<equiv> 0x08"
abbreviation EVT_CMD_COMPLETE :: byte where "EVT_CMD_COMPLETE \<equiv> 0x0e"
abbreviation EVT_CMD_STATUS :: byte where "EVT_CMD_STATUS \<equiv> 0x0f"
abbreviation EVT_NUM_COMP_PKTS :: byte where "EVT_NUM_COMP_PKTS \<equiv> 0x13"
abbreviation EVT_UNKNOWN :: byte where "EVT_UNKNOWN \<equiv> 0x10"
abbreviation EVT_LE_META_EVENT :: byte where "EVT_LE_META_EVENT \<equiv> 0x3e"

abbreviation OCF_RESET :: "16 word" where "OCF_RESET \<equiv> 0x0003"
abbreviation OCF_LE_SET_ADVERTISE_ENABLE :: "16 word" where "OCF_LE_SET_ADVERTISE_ENABLE \<equiv> 0x000a"
abbreviation OCF_LE_SET_SCAN_PARAMETERS :: "16 word" where "OCF_LE_SET_SCAN_PARAMETERS \<equiv> 0x000b"
abbreviation OCF_LE_SET_SCAN_ENABLE :: "16 word" where "OCF_LE_SET_SCAN_ENABLE \<equiv> 0x000c"
abbreviation OCF_LE_CREATE_CONN :: "16 word" where "OCF_LE_CREATE_CONN \<equiv> 0x000d"
abbreviation OCF_LE_CANCEL_CONN :: "16 word" where "OCF_LE_CANCEL_CONN \<equiv> 0x000e"

abbreviation HCIACLHeaderLen :: byte where "HCIACLHeaderLen \<equiv> 5"
abbreviation HCIEvtHeaderLen :: byte where "HCIEvtHeaderLen \<equiv> 3"

text \<open>\<^verbatim>\<open>OGF<<10 | OCF\<close>, the opcode of a command.\<close>

definition opcode_of :: "16 word \<Rightarrow> 16 word \<Rightarrow> 16 word" where
  "opcode_of ogf ocf = push_bit 10 ogf OR ocf"

subsection \<open>Errors and outcomes\<close>

datatype error =
    ErrHCITimeout
  | ErrHCIUnknownEvent
  | ErrHCIUnknown
  | ErrConnect
  | errScanning
  | errNotScanning
  | ErrTransport

datatype abort = Panic | OutOfFuel

subsection \<open>Data model\<close>

record leAdvertisingReport =
  reported :: bool
  adv_status :: byte
  adv_typ :: byte
  adv_peerBdaddrType :: byte
  adv_peerBdaddr :: "byte list"
  eirLength :: byte
  eirData :: "byte list"
  rssi :: byte

record leConnectData =
  connected :: bool
  conn_status :: byte
  handle :: "16 word"
  role :: byte
  conn_peerBdaddrType :: byte
  conn_peerBdaddr :: "byte list"

text \<open>
  A Go slice over the receive buffer \<^verbatim>\<open>h.buf\<close>: where it starts in the buffer, its length
  and its capacity. \<^verbatim>\<open>handleEventData\<close> is handed \<^verbatim>\<open>h.buf[1:i]\<close>, and \<^verbatim>\<open>h.cmdResponse\<close>
  is a slice of that slice, so both alias the buffer.
\<close>

record slice =
  off :: nat
  len :: nat
  cap :: nat

record hci =
  buf :: "byte list"
  address :: "byte list"
  cmdCompleteOpcode :: "16 word"
  cmdCompleteStatus :: byte
  cmdResponse :: slice
  scanning :: bool
  advData :: leAdvertisingReport
  connectData :: leConnectData

record Address =
  MAC :: "byte list"
  addr_typ :: byte

record AdvertisementFields =
  LocalName :: "byte list"

record ScanResult =
  result_Address :: Address
  RSSI :: "16 word"
  AdvertisementPayload :: AdvertisementFields

record Device =
  device_Address :: Address
  device_handle :: "16 word"

text \<open>
  What surrounds the engine. \<open>rx\<close> is the receive side of the UART as the successive
  answers to \<^verbatim>\<open>Buffered() > 0\<close>: \<open>Some b\<close> when a byte is waiting (\<^verbatim>\<open>ReadByte\<close> then
  yields \<open>b\<close>), \<open>None\<close> when the buffer is empty at that moment; after the end of the
  list the transport stays silent. \<open>tx\<close> lists the packets handed to \<^verbatim>\<open>Write\<close>, and
  \<open>write_error k\<close> tells whether the \<open>k\<close>-th \<^verbatim>\<open>Write\<close> reports an error. \<open>clock k\<close> is
  the \<open>k\<close>-th reading of \<^verbatim>\<open>time.Now().UnixNano()\<close>, \<open>ticks\<close> the number of readings taken.
  \<open>seen\<close> stands for the memory of the application that a scan callback can reach.
\<close>

record world =
  rx :: "byte option list"
  tx :: "byte list list"
  write_error :: "nat \<Rightarrow> bool"
  clock :: "nat \<Rightarrow> 64 word"
  ticks :: nat
  seen :: "ScanResult list"

record Adapter =
  a_hci :: hci
  a_scanning :: bool

type_synonym 'r outcome = "abort + ('r \<times> hci \<times> world)"

subsection \<open>Slices, arrays and the clock\<close>

text \<open>\<^verbatim>\<open>s[k]\<close>: \<open>None\<close> is the index-out-of-range panic.\<close>

definition idx :: "byte list \<Rightarrow> slice \<Rightarrow> nat \<Rightarrow> byte option" where
  "idx b s k = (if k < len s then Some (b ! (off s + k)) else None)"

text \<open>\<^verbatim>\<open>s[lo:hi]\<close>: Go allows \<open>hi\<close> up to the capacity; \<open>None\<close> is the slice-bounds panic.\<close>

definition reslice :: "slice \<Rightarrow> nat \<Rightarrow> nat \<Rightarrow> slice option" where
  "reslice s lo hi =
     (if lo \<le> hi \<and> hi \<le> cap s
      then Some \<lparr>off = off s + lo, len = hi - lo, cap = cap s - lo\<rparr>
      else None)"

definition bytes_of :: "byte list \<Rightarrow> slice \<Rightarrow> byte list" where
  "bytes_of b s = take (len s) (drop (off s) b)"

text \<open>\<^verbatim>\<open>copy(dst, src)\<close> copies \<open>min (len dst) (len src)\<close> elements.\<close>

definition copy_bytes :: "byte list \<Rightarrow> byte list \<Rightarrow> byte list" where
  "copy_bytes dst src = take (length dst) src @ drop (length src) dst"

definition time_now :: "world \<Rightarrow> 64 word \<times> world" where
  "time_now w = (clock w (ticks w), w\<lparr>ticks := Suc (ticks w)\<rparr>)"

text \<open>
  \<^verbatim>\<open>(time.Now().UnixNano()-start)/int64(time.Second)\<close>: the subtraction wraps in 64 bits,
  the division truncates towards zero.
\<close>

definition elapsed_seconds :: "64 word \<Rightarrow> 64 word \<Rightarrow> int" where
  "elapsed_seconds now start = sint (now - start) sdiv 1000000000"

text \<open>\<^verbatim>\<open>uart.Write\<close>: the result tells whether an error was reported.\<close>

definition uart_Write :: "byte list \<Rightarrow> world \<Rightarrow> bool \<times> world" where
  "uart_Write pkt w = (write_error w (length (tx w)), w\<lparr>tx := tx w @ [pkt]\<rparr>)"

subsection \<open>Clearing the slots\<close>

definition clearAdvData :: "hci \<Rightarrow> hci" where
  "clearAdvData h = h\<lparr>advData :=
     \<lparr>reported = False, adv_status = 0, adv_typ = 0, adv_peerBdaddrType = 0,
      adv_peerBdaddr = replicate 6 0, eirLength = 0, eirData = replicate 64 0, rssi = 0\<rparr>\<rparr>"

definition clearConnectData :: "hci \<Rightarrow> hci" where
  "clearConnectData h = h\<lparr>connectData :=
     \<lparr>connected = False, conn_status = 0, handle = 0, role = 0, conn_peerBdaddrType = 0,
      conn_peerBdaddr = replicate 6 0\<rparr>\<rparr>"

text \<open>\<^verbatim>\<open>newHCI\<close>: a 256-byte buffer, every other field at its zero value.\<close>

definition newHCI :: hci where
  "newHCI =
     \<lparr>buf = replicate 256 0, address = replicate 6 0, cmdCompleteOpcode = 0,
      cmdCompleteStatus = 0, cmdResponse = \<lparr>off = 0, len = 0, cap = 0\<rparr>, scanning = False,
      advData = \<lparr>reported = False, adv_status = 0, adv_typ = 0, adv_peerBdaddrType = 0,
        adv_peerBdaddr = replicate 6 0, eirLength = 0, eirData = replicate 64 0, rssi = 0\<rparr>,
      connectData = \<lparr>connected = False, conn_status = 0, handle = 0, role = 0,
        conn_peerBdaddrType = 0, conn_peerBdaddr = replicate 6 0\<rparr>\<rparr>"

subsection \<open>The frame assembler\<close>

text \<open>
  The byte loop of \<^verbatim>\<open>poll\<close>. The running count \<open>i\<close> is the local \<^verbatim>\<open>byte\<close> of \<^verbatim>\<open>poll\<close>,
  so every call of \<^verbatim>\<open>poll\<close> starts it at 0. The loop leaves with a complete frame and
  the count at that moment (\<^verbatim>\<open>poll\<close> then returns what the handler returns), or with no
  frame when \<^verbatim>\<open>Buffered()\<close> is 0. The comparisons and sums are those of \<^verbatim>\<open>uint8\<close>: in
  \<^verbatim>\<open>h.buf[4] << 8\<close> a byte is shifted by 8 within 8 bits. The buffer is the 256-byte
  slice of \<^verbatim>\<open>newHCI\<close>, which nothing reassigns, so \<^verbatim>\<open>h.buf[i]\<close> with \<open>i\<close> a byte and the
  fixed offsets 0, 2, 3, 4 are within it.
\<close>

datatype frame = NoFrame | ACLFrame byte | EventFrame byte

fun poll_loop :: "byte \<Rightarrow> byte list \<Rightarrow> byte option list \<Rightarrow> frame \<times> byte list \<times> byte option list" where
  "poll_loop i b [] = (NoFrame, b, [])"
| "poll_loop i b (None # r) = (NoFrame, b, r)"
| "poll_loop i b (Some data # r) =
     (let b = b[unat i := data]; i = i + 1 in
      if b ! 0 = HCI_ACLDATA_PKT then
        (if i > HCIACLHeaderLen \<and> i \<ge> HCIACLHeaderLen + (b ! 3 OR push_bit 8 (b ! 4))
         then (ACLFrame i, b, r)
         else poll_loop i b r)
      else if b ! 0 = HCI_EVENT_PKT then
        (if i > HCIEvtHeaderLen \<and> i \<ge> HCIEvtHeaderLen + b ! 2
         then (EventFrame i, b, r)
         else poll_loop i b r)
      else poll_loop 0 b r)"

text \<open>\<^verbatim>\<open>h.buf[1:i]\<close>, the slice handed to the handlers.\<close>

definition frame_slice :: "byte list \<Rightarrow> byte \<Rightarrow> slice option" where
  "frame_slice b i = reslice \<lparr>off = 0, len = length b, cap = length b\<rparr> 1 (unat i)"

definition handleACLData :: "slice \<Rightarrow> hci \<Rightarrow> world \<Rightarrow> error option outcome" where
  "handleACLData s h w = Inr (None, h, w)"

subsection \<open>The event decoder, case by case\<close>

text \<open>
  The cases of the \<^verbatim>\<open>switch\<close> statements of \<^verbatim>\<open>handleEventData\<close> that call nothing
  else, each as a function of the slice \<open>s\<close> it was handed and of the engine. Every
  \<^verbatim>\<open>buf[k]\<close> is checked against the length of the slice, as the Go run time does;
  nothing follows a panic, so the order of the reads of one case does not matter.
  \<^verbatim>\<open>13+h.advData.eirLength+1\<close> and \<^verbatim>\<open>plen+2\<close> are sums of bytes.
\<close>

type_synonym decoded = "abort + (error option \<times> hci)"

definition on_CMD_COMPLETE :: "slice \<Rightarrow> byte \<Rightarrow> hci \<Rightarrow> decoded" where
  "on_CMD_COMPLETE s plen h =
     (case (idx (buf h) s 3, idx (buf h) s 4, idx (buf h) s 5) of
        (Some b3, Some b4, Some b5) \<Rightarrow>
          (case (if plen > 0 then reslice s 1 (unat (plen + 2)) else reslice s 0 0) of
             None \<Rightarrow> Inl Panic
           | Some resp \<Rightarrow>
               Inr (None,
                    h\<lparr>cmdCompleteOpcode := ucast b3 OR push_bit 8 (ucast b4),
                      cmdCompleteStatus := b5,
                      cmdResponse := resp\<rparr>))
      | _ \<Rightarrow> Inl Panic)"

definition on_CMD_STATUS :: "slice \<Rightarrow> hci \<Rightarrow> decoded" where
  "on_CMD_STATUS s h =
     (case (idx (buf h) s 2, idx (buf h) s 4, idx (buf h) s 5, reslice s 0 0) of
        (Some b2, Some b4, Some b5, Some resp) \<Rightarrow>
          Inr (None,
               h\<lparr>cmdCompleteStatus := b2,
                 cmdCompleteOpcode := ucast b4 OR push_bit 8 (ucast b5),
                 cmdResponse := resp\<rparr>)
      | _ \<Rightarrow> Inl Panic)"

definition on_CONN_COMPLETE :: "slice \<Rightarrow> hci \<Rightarrow> decoded" where
  "on_CONN_COMPLETE s h =
     (case (idx (buf h) s 3, idx (buf h) s 4, idx (buf h) s 5, idx (buf h) s 6,
            idx (buf h) s 7, reslice s 8 14) of
        (Some b3, Some b4, Some b5, Some b6, Some b7, Some peer) \<Rightarrow>
          Inr (None,
               h\<lparr>connectData :=
                   \<lparr>connected = True, conn_status = b3,
                    handle = ucast b4 OR push_bit 8 (ucast b5),
                    role = b6, conn_peerBdaddrType = b7,
                    conn_peerBdaddr =
                      copy_bytes (conn_peerBdaddr (connectData h)) (bytes_of (buf h) peer)\<rparr>\<rparr>)
      | _ \<Rightarrow> Inl Panic)"

definition on_ADVERTISING_REPORT :: "slice \<Rightarrow> hci \<Rightarrow> decoded" where
  "on_ADVERTISING_REPORT s h =
     (case (idx (buf h) s 3, idx (buf h) s 4, idx (buf h) s 5, reslice s 6 12,
            idx (buf h) s 12) of
        (Some b3, Some b4, Some b5, Some peer, Some b12) \<Rightarrow>
          (let ad = \<lparr>reported = True, adv_status = b3, adv_typ = b4,
                     adv_peerBdaddrType = b5,
                     adv_peerBdaddr =
                       copy_bytes (adv_peerBdaddr (advData h)) (bytes_of (buf h) peer),
                     eirLength = b12, eirData = eirData (advData h), rssi = 0\<rparr>
           in
           if unat (13 + b12 + 1) > len s then Inr (None, clearAdvData (h\<lparr>advData := ad\<rparr>))
           else if b12 < 64 then
             (case reslice s 13 (unat (13 + b12 + 1)) of
                None \<Rightarrow> Inl Panic
              | Some eir \<Rightarrow>
                  (let ad = ad\<lparr>eirData := copy_bytes (eirData ad) (bytes_of (buf h) eir)\<rparr>
                   in
                   if adv_status ad = 0x01 then
                     (case idx (buf h) s (unat (13 + b12)) of
                        None \<Rightarrow> Inl Panic
                      | Some r \<Rightarrow> Inr (None, h\<lparr>advData := ad\<lparr>rssi := r\<rparr>\<rparr>))
                   else Inr (None, h\<lparr>advData := ad\<rparr>)))
           else Inr (None, h\<lparr>advData := ad\<rparr>))
      | _ \<Rightarrow> Inl Panic)"

definition on_LE_META_EVENT :: "slice \<Rightarrow> hci \<Rightarrow> decoded" where
  "on_LE_META_EVENT s h =
     (case idx (buf h) s 2 of
        None \<Rightarrow> Inl Panic
      | Some sub \<Rightarrow>
          if sub = LE_META_EVENT_CONN_COMPLETE \<or> sub = LE_META_EVENT_ENHANCED_CONNECTION_COMPLETE
          then on_CONN_COMPLETE s h
          else if sub = LE_META_EVENT_ADVERTISING_REPORT then on_ADVERTISING_REPORT s h
          else if sub = LE_META_EVENT_LONG_TERM_KEY_REQUEST then Inr (None, h)
          else if sub = LE_META_EVENT_REMOTE_CONN_PARAM_REQ then Inr (None, h)
          else if sub = LE_META_EVENT_READ_LOCAL_P256_COMPLETE then Inr (None, h)
          else if sub = LE_META_EVENT_GENERATE_DH_KEY_COMPLETE then Inr (None, h)
          else Inr (None, clearAdvData h))"

text \<open>Every case of the outer \<^verbatim>\<open>switch evt\<close> but the disconnection-complete one.\<close>

definition decode_event :: "byte \<Rightarrow> byte \<Rightarrow> slice \<Rightarrow> hci \<Rightarrow> decoded" where
  "decode_event evt plen s h =
     (if evt = EVT_ENCRYPTION_CHANGE then Inr (None, h)
      else if evt = EVT_CMD_COMPLETE then on_CMD_COMPLETE s plen h
      else if evt = EVT_CMD_STATUS then on_CMD_STATUS s h
      else if evt = EVT_NUM_COMP_PKTS then Inr (None, h)
      else if evt = EVT_LE_META_EVENT then on_LE_META_EVENT s h
      else if evt = EVT_UNKNOWN then Inr (Some ErrHCIUnknownEvent, h)
      else Inr (None, h))"

text \<open>
  The head of \<^verbatim>\<open>sendCommandWithParams\<close>: the command packet written into \<^verbatim>\<open>h.buf\<close>.
\<close>

definition put_command :: "16 word \<Rightarrow> byte list \<Rightarrow> byte list \<Rightarrow> byte list" where
  "put_command opcode params b =
     (let b = b[0 := HCI_COMMAND_PKT];
          b = b[1 := ucast (opcode AND 0xff)];
          b = b[2 := ucast (drop_bit 8 opcode)];
          b = b[3 := of_nat (length params)]
      in take 4 b @ copy_bytes (drop 4 b) params)"

subsection \<open>Polling, event handling and the command cycle\<close>

text \<open>
  \<^verbatim>\<open>poll\<close> calls \<^verbatim>\<open>handleEventData\<close>, which on a disconnection-complete event calls
  \<^verbatim>\<open>leSetAdvertiseEnable\<close>, which calls \<^verbatim>\<open>sendCommandWithParams\<close>, whose waiting loop
  calls \<^verbatim>\<open>poll\<close>: the five functions are defined together. Fuel is spent by the
  iterations of the waiting loop only.
\<close>

function poll :: "nat \<Rightarrow> hci \<Rightarrow> world \<Rightarrow> error option outcome"
  and handleEventData :: "nat \<Rightarrow> slice \<Rightarrow> hci \<Rightarrow> world \<Rightarrow> error option outcome"
  and leSetAdvertiseEnable :: "nat \<Rightarrow> bool \<Rightarrow> hci \<Rightarrow> world \<Rightarrow> error option outcome"
  and sendCommandWithParams :: "nat \<Rightarrow> 16 word \<Rightarrow> byte list \<Rightarrow> hci \<Rightarrow> world \<Rightarrow> error option outcome"
  and sendCommand_wait :: "nat \<Rightarrow> 16 word \<Rightarrow> 64 word \<Rightarrow> hci \<Rightarrow> world \<Rightarrow> error option outcome"
where
  "poll n h w =
     (case poll_loop 0 (buf h) (rx w) of
        (NoFrame, b, r) \<Rightarrow> Inr (None, h\<lparr>buf := b\<rparr>, w\<lparr>rx := r\<rparr>)
      | (ACLFrame i, b, r) \<Rightarrow>
          (case frame_slice b i of
             None \<Rightarrow> Inl Panic
           | Some s \<Rightarrow> handleACLData s (h\<lparr>buf := b\<rparr>) (w\<lparr>rx := r\<rparr>))
      | (EventFrame i, b, r) \<Rightarrow>
          (case frame_slice b i of
             None \<Rightarrow> Inl Panic
           | Some s \<Rightarrow> handleEventData n s (h\<lparr>buf := b\<rparr>) (w\<lparr>rx := r\<rparr>)))"
| "handleEventData n s h w =
     (case (idx (buf h) s 0, idx (buf h) s 1) of
        (Some evt, Some plen) \<Rightarrow>
          if evt = EVT_DISCONN_COMPLETE then leSetAdvertiseEnable n True h w
          else (case decode_event evt plen s h of
                  Inl a \<Rightarrow> Inl a
                | Inr (err, h) \<Rightarrow> Inr (err, h, w))
      | _ \<Rightarrow> Inl Panic)"
| "leSetAdvertiseEnable n enabled h w =
     sendCommandWithParams n (opcode_of OGF_LE_CTL OCF_LE_SET_ADVERTISE_ENABLE)
       [if enabled then 1 else 0] h w"
| "sendCommandWithParams n opcode params h w =
     (let h = h\<lparr>buf := put_command opcode params (buf h)\<rparr> in
      if 4 + length params > length (buf h) then Inl Panic
      else
        (case uart_Write (take (4 + length params) (buf h)) w of
           (True, w) \<Rightarrow> Inr (Some ErrTransport, h, w)
         | (False, w) \<Rightarrow>
             (case time_now w of
                (start, w) \<Rightarrow>
                  sendCommand_wait n opcode start
                    (h\<lparr>cmdCompleteOpcode := 0xffff, cmdCompleteStatus := 0xff\<rparr>) w)))"
| "sendCommand_wait 0 opcode start h w = Inl OutOfFuel"
| "sendCommand_wait (Suc n) opcode start h w =
     (if cmdCompleteOpcode h \<noteq> opcode then
        (case poll n h w of
           Inl a \<Rightarrow> Inl a
         | Inr (Some err, h, w) \<Rightarrow> Inr (Some err, h, w)
         | Inr (None, h, w) \<Rightarrow>
             (case time_now w of
                (now, w) \<Rightarrow>
                  if elapsed_seconds now start > 3 then Inr (Some ErrHCITimeout, h, w)
                  else sendCommand_wait n opcode start h w))
      else Inr (None, h, w))"
  by pat_completeness auto
termination
  by (relation "measure
        (case_sum
          (case_sum (\<lambda>(n, h, w). 5 * n + 4) (\<lambda>(n, s, h, w). 5 * n + 3))
          (case_sum (\<lambda>(n, e, h, w). 5 * n + 2)
            (case_sum (\<lambda>(n, opc, ps, h, w). 5 * n + 1) (\<lambda>(n, opc, st, h, w). 5 * n))))")
     simp_all

subsection \<open>The command helpers\<close>

definition sendCommand :: "nat \<Rightarrow> 16 word \<Rightarrow> hci \<Rightarrow> world \<Rightarrow> error option outcome" where
  "sendCommand n opcode h w = sendCommandWithParams n opcode [] h w"

definition leSetScanEnable :: "nat \<Rightarrow> bool \<Rightarrow> bool \<Rightarrow> hci \<Rightarrow> world \<Rightarrow> error option outcome" where
  "leSetScanEnable n enabled duplicates h w =
     sendCommandWithParams n (opcode_of OGF_LE_CTL OCF_LE_SET_SCAN_ENABLE)
       [if enabled then 1 else 0, if duplicates then 1 else 0]
       (h\<lparr>scanning := enabled\<rparr>) w"

definition leSetScanParameters ::
  "nat \<Rightarrow> byte \<Rightarrow> 16 word \<Rightarrow> 16 word \<Rightarrow> byte \<Rightarrow> byte \<Rightarrow> hci \<Rightarrow> world \<Rightarrow> error option outcome" where
  "leSetScanParameters n type interval window ownBdaddrType filter_policy h w =
     sendCommandWithParams n (opcode_of OGF_LE_CTL OCF_LE_SET_SCAN_PARAMETERS)
       [type, ucast (interval AND 0xff), ucast (drop_bit 8 interval),
        ucast (window AND 0xff), ucast (drop_bit 8 window), ownBdaddrType, filter_policy] h w"

text \<open>\<^verbatim>\<open>binary.LittleEndian.PutUint16\<close>.\<close>

definition le16 :: "16 word \<Rightarrow> byte list" where
  "le16 v = [ucast v, ucast (drop_bit 8 v)]"

text \<open>
  \<^verbatim>\<open>makeNINAAddress\<close> and \<^verbatim>\<open>makeAddress\<close> copy the six bytes of a \<^verbatim>\<open>[6]uint8\<close> into a
  new one.
\<close>

definition makeNINAAddress :: "byte list \<Rightarrow> byte list" where
  "makeNINAAddress mac = copy_bytes (replicate 6 0) mac"

definition makeAddress :: "byte list \<Rightarrow> byte list" where
  "makeAddress mac = copy_bytes (replicate 6 0) mac"

definition leCreateConn ::
  "nat \<Rightarrow> 16 word \<Rightarrow> 16 word \<Rightarrow> byte \<Rightarrow> byte \<Rightarrow> byte list \<Rightarrow> byte \<Rightarrow>
   16 word \<Rightarrow> 16 word \<Rightarrow> 16 word \<Rightarrow> 16 word \<Rightarrow> 16 word \<Rightarrow> 16 word \<Rightarrow>
   hci \<Rightarrow> world \<Rightarrow> error option outcome" where
  "leCreateConn n interval window initiatorFilter peerBdaddrType peerBdaddr ownBdaddrType
     minInterval maxInterval latency supervisionTimeout minCeLength maxCeLength h w =
     sendCommandWithParams n (opcode_of OGF_LE_CTL OCF_LE_CREATE_CONN)
       (le16 interval @ le16 window @ [initiatorFilter, peerBdaddrType] @
        copy_bytes (replicate 6 0) peerBdaddr @ [ownBdaddrType] @
        le16 minInterval @ le16 maxInterval @ le16 latency @ le16 supervisionTimeout @
        le16 minCeLength @ le16 maxCeLength) h w"

definition leCancelConn :: "nat \<Rightarrow> hci \<Rightarrow> world \<Rightarrow> error option outcome" where
  "leCancelConn n h w = sendCommand n (opcode_of OGF_LE_CTL OCF_LE_CANCEL_CONN) h w"

subsection \<open>Scan\<close>

text \<open>
  The loop over the EIR fields in \<^verbatim>\<open>Scan\<close>, on the 64-byte array \<^verbatim>\<open>eirData\<close>, with \<open>n\<close>
  the \<^verbatim>\<open>int(eirLength)\<close> and \<open>i\<close> the cursor. \<^verbatim>\<open>eirData[i]\<close>, \<^verbatim>\<open>eirData[i+1]\<close> and the
  slice \<^verbatim>\<open>eirData[i+2 : i+2+l]\<close> panic outside the array. The tags 0x02, 0x03, 0x06,
  0x07 and 0xFF have empty cases, as every tag that is not listed.
\<close>

function eir_loop :: "byte list \<Rightarrow> nat \<Rightarrow> nat \<Rightarrow> AdvertisementFields \<Rightarrow> abort + AdvertisementFields" where
  "eir_loop eir n i adf =
     (if i < n then
        (if i + 1 < length eir then
           (let l = unat (eir ! i); t = eir ! (i + 1) in
            if l < 1 then Inr adf
            else if t = 0x08 \<or> t = 0x09 then
              (if i + 2 + l \<le> length eir
               then eir_loop eir n (i + l + 1) (adf\<lparr>LocalName := take l (drop (i + 2) eir)\<rparr>)
               else Inl Panic)
            else eir_loop eir n (i + l + 1) adf)
         else Inl Panic)
      else Inr adf)"
  by pat_completeness auto
termination
  by (relation "measure (\<lambda>(eir, n, i, adf). n - i)") auto

type_synonym callback = "ScanResult \<Rightarrow> Adapter \<times> world \<Rightarrow> Adapter \<times> world"

type_synonym 'r adapter_outcome = "abort + ('r \<times> Adapter \<times> world)"

text \<open>
  The \<^verbatim>\<open>switch\<close> of the scan loop, after a \<^verbatim>\<open>poll\<close> without error. The boolean of the
  result is \<open>True\<close> when \<^verbatim>\<open>Scan\<close> returns \<^verbatim>\<open>nil\<close> here and \<open>False\<close> when the loop goes
  on (\<^verbatim>\<open>continue\<close>, the end of the case, or after the sleep).
\<close>

definition Scan_switch :: "callback \<Rightarrow> Adapter \<Rightarrow> world \<Rightarrow> bool adapter_outcome" where
  "Scan_switch cb a w =
     (let ad = advData (a_hci a) in
      if reported ad then
        (if adv_typ ad \<noteq> 0x04 then Inr (False, a\<lparr>a_hci := clearAdvData (a_hci a)\<rparr>, w)
         else if eirLength ad > 64 then Inr (False, a\<lparr>a_hci := clearAdvData (a_hci a)\<rparr>, w)
         else
           (case eir_loop (eirData ad) (unat (eirLength ad)) 0 \<lparr>LocalName = []\<rparr> of
              Inl x \<Rightarrow> Inl x
            | Inr adf \<Rightarrow>
                (case cb \<lparr>result_Address =
                            \<lparr>MAC = makeAddress (adv_peerBdaddr ad), addr_typ = adv_peerBdaddrType ad\<rparr>,
                          RSSI = scast (rssi ad),
                          AdvertisementPayload = adf\<rparr> (a, w) of
                   (a, w) \<Rightarrow> Inr (False, a\<lparr>a_hci := clearAdvData (a_hci a)\<rparr>, w))))
      else if \<not> a_scanning a then Inr (True, a, w)
      else Inr (False, a, w))"

fun Scan_loop :: "nat \<Rightarrow> callback \<Rightarrow> Adapter \<Rightarrow> world \<Rightarrow> error option adapter_outcome" where
  "Scan_loop 0 cb a w = Inl OutOfFuel"
| "Scan_loop (Suc n) cb a w =
     (case poll n (a_hci a) w of
        Inl x \<Rightarrow> Inl x
      | Inr (Some err, h, w) \<Rightarrow> Inr (Some err, a\<lparr>a_hci := h\<rparr>, w)
      | Inr (None, h, w) \<Rightarrow>
          (case Scan_switch cb (a\<lparr>a_hci := h\<rparr>) w of
             Inl x \<Rightarrow> Inl x
           | Inr (True, a, w) \<Rightarrow> Inr (None, a, w)
           | Inr (False, a, w) \<Rightarrow> Scan_loop n cb a w))"

definition Scan :: "nat \<Rightarrow> callback \<Rightarrow> Adapter \<Rightarrow> world \<Rightarrow> error option adapter_outcome" where
  "Scan n cb a w =
     (if a_scanning a then Inr (Some errScanning, a, w)
      else
        (case leSetScanEnable n False True (a_hci a) w of
           Inl x \<Rightarrow> Inl x
         | Inr (Some err, h, w) \<Rightarrow> Inr (Some err, a\<lparr>a_hci := h\<rparr>, w)
         | Inr (None, h, w) \<Rightarrow>
             (case leSetScanParameters n 0x01 0x0020 0x0020 0x00 0x00 h w of
                Inl x \<Rightarrow> Inl x
              | Inr (Some err, h, w) \<Rightarrow> Inr (Some err, a\<lparr>a_hci := h\<rparr>, w)
              | Inr (None, h, w) \<Rightarrow>
                  (case leSetScanEnable n True False h w of
                     Inl x \<Rightarrow> Inl x
                   | Inr (Some err, h, w) \<Rightarrow> Inr (Some err, a\<lparr>a_hci := h, a_scanning := True\<rparr>, w)
                   | Inr (None, h, w) \<Rightarrow> Scan_loop n cb (a\<lparr>a_hci := h, a_scanning := True\<rparr>) w))))"

subsection \<open>Connect\<close>

text \<open>
  The \<^verbatim>\<open>for\<close> loop of \<^verbatim>\<open>Connect\<close>. Its result is \<open>Some r\<close> when \<^verbatim>\<open>Connect\<close> returns \<open>r\<close>
  from inside the loop, and would be \<open>None\<close> if the loop were left by a \<^verbatim>\<open>break\<close>. The
  only \<^verbatim>\<open>break\<close> of the loop stands in the \<^verbatim>\<open>default\<close> case of the \<^verbatim>\<open>switch\<close>: in Go an
  unlabelled \<^verbatim>\<open>break\<close> ends the innermost \<^verbatim>\<open>for\<close>, \<^verbatim>\<open>switch\<close> or \<^verbatim>\<open>select\<close>, here the
  \<^verbatim>\<open>switch\<close>, and the loop takes its next iteration. The deferred
  \<^verbatim>\<open>clearConnectData\<close> runs after the returned \<^verbatim>\<open>Device\<close> has been built.
\<close>

type_synonym connect_result = "Device option \<times> error option"

fun Connect_loop :: "nat \<Rightarrow> 64 word \<Rightarrow> Adapter \<Rightarrow> world \<Rightarrow> connect_result option adapter_outcome" where
  "Connect_loop 0 start a w = Inl OutOfFuel"
| "Connect_loop (Suc n) start a w =
     (case poll n (a_hci a) w of
        Inl x \<Rightarrow> Inl x
      | Inr (Some err, h, w) \<Rightarrow> Inr (Some (None, Some err), a\<lparr>a_hci := h\<rparr>, w)
      | Inr (None, h, w) \<Rightarrow>
          if connected (connectData h) then
            Inr (Some (Some \<lparr>device_Address =
                               \<lparr>MAC = makeAddress (conn_peerBdaddr (connectData h)),
                                addr_typ = conn_peerBdaddrType (connectData h)\<rparr>,
                             device_handle = handle (connectData h)\<rparr>, None),
                 a\<lparr>a_hci := clearConnectData h\<rparr>, w)
          else
            (case time_now w of
               (now, w) \<Rightarrow>
                 if elapsed_seconds now start > 5
                 then Connect_loop n start (a\<lparr>a_hci := h\<rparr>) w
                 else Connect_loop n start (a\<lparr>a_hci := h\<rparr>) w))"

definition Connect :: "nat \<Rightarrow> Address \<Rightarrow> Adapter \<Rightarrow> world \<Rightarrow> connect_result adapter_outcome" where
  "Connect n addr a w =
     (case leCreateConn n 0x0060 0x0030 0x00 (addr_typ addr) (makeNINAAddress (MAC addr))
             0x00 0x0006 0x000c 0x0000 0x00c8 0x0004 0x0006 (a_hci a) w of
        Inl x \<Rightarrow> Inl x
      | Inr (Some err, h, w) \<Rightarrow> Inr ((None, Some err), a\<lparr>a_hci := h\<rparr>, w)
      | Inr (None, h, w) \<Rightarrow>
          (case time_now w of
             (start, w) \<Rightarrow>
               (case Connect_loop n start (a\<lparr>a_hci := h\<rparr>) w of
                  Inl x \<Rightarrow> Inl x
                | Inr (Some r, a, w) \<Rightarrow> Inr (r, a, w)
                | Inr (None, a, w) \<Rightarrow>
                    (case leCancelConn n (a_hci a) w of
                       Inl x \<Rightarrow> Inl x
                     | Inr (Some err, h, w) \<Rightarrow> Inr ((None, Some err), a\<lparr>a_hci := h\<rparr>, w)
                     | Inr (None, h, w) \<Rightarrow> Inr ((None, Some ErrConnect), a\<lparr>a_hci := h\<rparr>, w)))))"

subsection \<open>The frame assembler of the earlier engine\<close>

text \<open>
  The byte loop of the earlier \<^verbatim>\<open>poll\<close>: the ACL length is written with \<^verbatim>\<open>+\<close>, the
  byte 0xff is dropped as a leftover, and any other unknown packet type ends \<^verbatim>\<open>poll\<close>
  with \<^verbatim>\<open>ErrHCIUnknown\<close>.
\<close>

fun poll_loop_v1 ::
  "byte \<Rightarrow> byte list \<Rightarrow> byte option list \<Rightarrow> (error + frame) \<times> byte list \<times> byte option list" where
  "poll_loop_v1 i b [] = (Inr NoFrame, b, [])"
| "poll_loop_v1 i b (None # r) = (Inr NoFrame, b, r)"
| "poll_loop_v1 i b (Some data # r) =
     (let b = b[unat i := data]; i = i + 1 in
      if b ! 0 = HCI_ACLDATA_PKT then
        (if i > HCIACLHeaderLen \<and> i \<ge> HCIACLHeaderLen + (b ! 3 + push_bit 8 (b ! 4))
         then (Inr (ACLFrame i), b, r)
         else poll_loop_v1 i b r)
      else if b ! 0 = HCI_EVENT_PKT then
        (if i > HCIEvtHeaderLen \<and> i \<ge> HCIEvtHeaderLen + b ! 2
         then (Inr (EventFrame i), b, r)
         else poll_loop_v1 i b r)
      else if b ! 0 = 0xff then poll_loop_v1 0 b r
      else (Inl ErrHCIUnknown, b, r))"

subsection \<open>Surroundings and callbacks used in the examples\<close>

text \<open>
  A transport with nothing to deliver whose writes succeed, and a clock that advances by
  one second from each reading to the next.
\<close>

definition quiet_world :: world where
  "quiet_world =
     \<lparr>rx = [], tx = [], write_error = (\<lambda>k. False),
      clock = (\<lambda>k. of_nat k * 1000000000), ticks = 0, seen = []\<rparr>"

definition fresh_adapter :: Adapter where
  "fresh_adapter = \<lparr>a_hci = newHCI, a_scanning = False\<rparr>"

text \<open>A scan callback that stores each result it is given.\<close>

definition record_result :: callback where
  "record_result r = (\<lambda>(a, w). (a, w\<lparr>seen := seen w @ [r]\<rparr>))"

text \<open>A scan callback that stores the result and asks for the scan to end.\<close>

definition record_and_stop :: callback where
  "record_and_stop r = (\<lambda>(a, w). (a\<lparr>a_scanning := False\<rparr>, w\<lparr>seen := seen w @ [r]\<rparr>))"

text \<open>What a call returned, and what the callback has stored when the call returns.\<close>

definition returned :: "abort + ('r \<times> 's) \<Rightarrow> abort + 'r" where
  "returned res = map_sum id fst res"

definition surfaced :: "'r adapter_outcome \<Rightarrow> abort + ScanResult list" where
  "surfaced res = map_sum id (\<lambda>(r, a, w). seen w) res"

text \<open>
  Two frames from the controller: the command-status event that acknowledges the
  create-connection command (status 0, opcode 0x200d), and an LE connection-complete
  event whose status byte is 0x3e (connection failed to be established), with handle
  0x0040 and peer address 01:02:03:04:05:06.
\<close>

definition ack_create_conn :: "byte list" where
  "ack_create_conn = [0x04, 0x0f, 0x04, 0x00, 0x01, 0x0d, 0x20]"

definition conn_failed :: "byte list" where
  "conn_failed = [0x04, 0x3e, 0x13, 0x01, 0x3e, 0x40, 0x00, 0x00, 0x00,
                  0x01, 0x02, 0x03, 0x04, 0x05, 0x06, 0x18, 0x00, 0x00, 0x00, 0xc8, 0x00, 0x00]"

text \<open>
  Advertising-report events (status 0x01, so a trailing RSSI byte): one of type 0x00 and
  one of type 0x04 without EIR data, one of type 0x04 whose EIR data is the local-name
  field \<^verbatim>\<open>len=5, tag=0x09, "Test"\<close>, and one of type 0x04 with a declared EIR length
  of 64.
\<close>

definition adv_type0 :: "byte list" where
  "adv_type0 = [0x04, 0x3e, 0x0c, 0x02, 0x01, 0x00, 0x00, 0xb1, 0xb2, 0xb3, 0xb4, 0xb5, 0xb6, 0x00, 0xc4]"

definition adv_type4 :: "byte list" where
  "adv_type4 = [0x04, 0x3e, 0x0c, 0x02, 0x01, 0x04, 0x00, 0xa1, 0xa2, 0xa3, 0xa4, 0xa5, 0xa6, 0x00, 0xce]"

definition adv_test_name :: "byte list" where
  "adv_test_name = [0x04, 0x3e, 0x12, 0x02, 0x01, 0x04, 0x00, 0xa1, 0xa2, 0xa3, 0xa4, 0xa5, 0xa6, 0x06,
                    0x05, 0x09, 0x54, 0x65, 0x73, 0x74, 0xce]"

definition adv64_frame :: "byte list" where
  "adv64_frame = [0x04, 0x3e, 0x4c, 0x02, 0x01, 0x04, 0x00, 0xa1, 0xa2, 0xa3, 0xa4, 0xa5, 0xa6, 0x40]
      @ replicate 64 0x41 @ [0xce]"

text \<open>An adapter whose advertising slot holds an unread report of type \<open>t\<close>.\<close>

definition slot_adapter :: "byte \<Rightarrow> Adapter" where
  "slot_adapter t =
     \<lparr>a_hci = newHCI\<lparr>advData :=
        \<lparr>reported = True, adv_status = 0x01, adv_typ = t, adv_peerBdaddrType = 0,
         adv_peerBdaddr = [0xa1, 0xa2, 0xa3, 0xa4, 0xa5, 0xa6], eirLength = 0,
         eirData = replicate 64 0, rssi = 0xce\<rparr>\<rparr>,
      a_scanning = True\<rparr>"

subsection \<open>What the engine preserves\<close>

text \<open>
  The errors the engine itself produces, and what no function of the engine changes (the
  \<^verbatim>\<open>scanning\<close> flag and the length of the receive buffer): used as an invariant of the
  five mutually recursive functions.
\<close>

definition engine_error :: "error option \<Rightarrow> bool" where
  "engine_error r =
     (r = None \<or> r = Some ErrHCITimeout \<or> r = Some ErrHCIUnknownEvent \<or> r = Some ErrTransport)"

definition inv_res :: "hci \<Rightarrow> error option outcome \<Rightarrow> bool" where
  "inv_res h res =
     (case res of
        Inl x \<Rightarrow> True
      | Inr (r, h', w') \<Rightarrow>
          scanning h' = scanning h \<and> length (buf h') = length (buf h) \<and> engine_error r)"

definition inv_dec :: "hci \<Rightarrow> decoded \<Rightarrow> bool" where
  "inv_dec h res =
     (case res of
        Inl x \<Rightarrow> True
      | Inr (r, h') \<Rightarrow>
          scanning h' = scanning h \<and> length (buf h') = length (buf h) \<and> engine_error r)"

section \<open>Properties\<close>

subsection \<open>The engine invariant\<close>

lemma engine_error_simps [simp]:
  "engine_error None" "engine_error (Some ErrHCITimeout)"
  "engine_error (Some ErrHCIUnknownEvent)" "engine_error (Some ErrTransport)"
  "\<not> engine_error (Some ErrHCIUnknown)" "\<not> engine_error (Some ErrConnect)"
  by (simp_all add: engine_error_def)

lemma inv_res_simps [simp]:
  "inv_res h (Inl x)"
  "inv_res h (Inr (r, h', w')) =
     (scanning h' = scanning h \<and> length (buf h') = length (buf h) \<and> engine_error r)"
  by (simp_all add: inv_res_def)

lemma inv_dec_simps [simp]:
  "inv_dec h (Inl x)"
  "inv_dec h (Inr (r, h')) =
     (scanning h' = scanning h \<and> length (buf h') = length (buf h) \<and> engine_error r)"
  by (simp_all add: inv_dec_def)

lemma scanning_clearAdvData [simp]: "scanning (clearAdvData h) = scanning h"
  by (simp add: clearAdvData_def)

lemma buf_clearAdvData [simp]: "buf (clearAdvData h) = buf h"
  by (simp add: clearAdvData_def)

lemma length_copy_bytes [simp]: "length (copy_bytes dst src) = length dst"
  by (simp add: copy_bytes_def)

lemma length_put_command [simp]: "length (put_command opcode params b) = length b"
  by (simp add: put_command_def Let_def)

lemma length_buf_newHCI [simp]: "length (buf newHCI) = 256"
  by (simp add: newHCI_def)

lemma length_poll_loop: "poll_loop i b r = (f, b', r') \<Longrightarrow> length b' = length b"
  by (induction i b r rule: poll_loop.induct) (auto simp: Let_def split: if_splits)

lemma inv_on_CMD_COMPLETE: "inv_dec h (on_CMD_COMPLETE s plen h)"
  by (simp add: on_CMD_COMPLETE_def split: option.splits)

lemma inv_on_CMD_STATUS: "inv_dec h (on_CMD_STATUS s h)"
  by (simp add: on_CMD_STATUS_def split: option.splits)

lemma inv_on_CONN_COMPLETE: "inv_dec h (on_CONN_COMPLETE s h)"
  by (simp add: on_CONN_COMPLETE_def split: option.splits)

lemma inv_on_ADVERTISING_REPORT: "inv_dec h (on_ADVERTISING_REPORT s h)"
  by (simp add: on_ADVERTISING_REPORT_def Let_def split: option.splits)

lemma inv_on_LE_META_EVENT: "inv_dec h (on_LE_META_EVENT s h)"
  by (simp add: on_LE_META_EVENT_def inv_on_CONN_COMPLETE inv_on_ADVERTISING_REPORT
      split: option.splits)

lemma inv_decode_event: "inv_dec h (decode_event evt plen s h)"
  by (simp add: decode_event_def inv_on_CMD_COMPLETE inv_on_CMD_STATUS inv_on_LE_META_EVENT)

lemma inv_res_trans:
  "scanning h1 = scanning h \<Longrightarrow> length (buf h1) = length (buf h) \<Longrightarrow> inv_res h1 res \<Longrightarrow>
   inv_res h res"
  by (auto simp: inv_res_def split: sum.splits)

text \<open>
  By the induction rule of the five functions: whatever they return, the \<^verbatim>\<open>scanning\<close>
  flag is the one they were called with, the receive buffer has the length it had, and
  the error is one of the engine's own.
\<close>

lemma engine_inv:
  "inv_res h (poll n h w)"
  "inv_res h (handleEventData n s h w)"
  "inv_res h (leSetAdvertiseEnable n enabled h w)"
  "inv_res h (sendCommandWithParams n opcode params h w)"
  "inv_res h (sendCommand_wait n opcode start h w)"
proof (induction n h w and n s h w and n enabled h w and n opcode params h w and n opcode start h w
    rule: poll_handleEventData_leSetAdvertiseEnable_sendCommandWithParams_sendCommand_wait.induct)
  case (1 n h w)
  show ?case
  proof (cases "poll_loop 0 (buf h) (rx w)")
    case (fields f b r)
    have lb: "length b = length (buf h)" using fields by (rule length_poll_loop)
    show ?thesis
    proof (cases f)
      case NoFrame
      with fields lb show ?thesis by simp
    next
      case (ACLFrame i)
      with fields lb show ?thesis by (simp add: handleACLData_def split: option.splits)
    next
      case (EventFrame i)
      show ?thesis
      proof (cases "frame_slice b i")
        case None
        with fields EventFrame show ?thesis by simp
      next
        case (Some s)
        have "inv_res (h\<lparr>buf := b\<rparr>) (handleEventData n s (h\<lparr>buf := b\<rparr>) (w\<lparr>rx := r\<rparr>))"
          using "1.IH" [of f "(b, r)" i b r s] fields EventFrame Some by simp
        then have "inv_res h (handleEventData n s (h\<lparr>buf := b\<rparr>) (w\<lparr>rx := r\<rparr>))"
          using lb by (intro inv_res_trans [of "h\<lparr>buf := b\<rparr>" h]) simp_all
        with fields EventFrame Some show ?thesis by simp
      qed
    qed
  qed
next
  case (2 n s h w)
  show ?case
  proof (cases "idx (buf h) s 0")
    case None
    then show ?thesis by simp
  next
    case evt: (Some evt)
    show ?thesis
    proof (cases "idx (buf h) s 1")
      case None
      with evt show ?thesis by simp
    next
      case plen: (Some plen)
      show ?thesis
      proof (cases "evt = EVT_DISCONN_COMPLETE")
        case True
        with "2.IH" [of "Some evt" "Some plen" evt plen] evt plen show ?thesis by simp
      next
        case False
        with evt plen inv_decode_event [of h evt plen s] show ?thesis
          by (auto split: sum.splits)
      qed
    qed
  qed
next
  case (3 n enabled h w)
  then show ?case by simp
next
  case (4 n opcode params h w)
  show ?case
  proof (cases "4 + length params > length (put_command opcode params (buf h))")
    case True
    then show ?thesis by (simp add: Let_def)
  next
    case False
    obtain e w1 where
      wr: "uart_Write (take (4 + length params) (put_command opcode params (buf h))) w = (e, w1)"
      by (cases "uart_Write (take (4 + length params) (put_command opcode params (buf h))) w")
    obtain start w2 where tn: "time_now w1 = (start, w2)" by (cases "time_now w1")
    show ?thesis
    proof (cases e)
      case True
      with False wr show ?thesis by (simp add: Let_def)
    next
      case e: False
      have "inv_res
              (h\<lparr>buf := put_command opcode params (buf h), cmdCompleteOpcode := 0xffff,
                 cmdCompleteStatus := 0xff\<rparr>)
              (sendCommand_wait n opcode start
                 (h\<lparr>buf := put_command opcode params (buf h), cmdCompleteOpcode := 0xffff,
                    cmdCompleteStatus := 0xff\<rparr>) w2)"
        using "4.IH" [of "h\<lparr>buf := put_command opcode params (buf h)\<rparr>" e w1 start w2]
          False wr tn e
        by simp
      then have "inv_res h
              (sendCommand_wait n opcode start
                 (h\<lparr>buf := put_command opcode params (buf h), cmdCompleteOpcode := 0xffff,
                    cmdCompleteStatus := 0xff\<rparr>) w2)"
        by (intro inv_res_trans
            [of "h\<lparr>buf := put_command opcode params (buf h), cmdCompleteOpcode := 0xffff,
                   cmdCompleteStatus := 0xff\<rparr>" h]) simp_all
      with False wr tn e show ?thesis by (simp add: Let_def)
    qed
  qed
next
  case (5 opcode start h w)
  show ?case by simp
next
  case (6 n opcode start h w)
  show ?case
  proof (cases "cmdCompleteOpcode h = opcode")
    case True
    then show ?thesis by simp
  next
    case ne: False
    have p: "inv_res h (poll n h w)" using "6.IH"(1) ne by simp
    show ?thesis
    proof (cases "poll n h w")
      case (Inl x)
      with ne show ?thesis by simp
    next
      case (Inr b)
      obtain r h1 w1 where b: "b = (r, h1, w1)" by (cases b)
      from p Inr b have h1: "scanning h1 = scanning h" "length (buf h1) = length (buf h)"
        and r: "engine_error r" by simp_all
      show ?thesis
      proof (cases r)
        case (Some err)
        with ne Inr b h1 r show ?thesis by simp
      next
        case None
        obtain now w2 where tn: "time_now w1 = (now, w2)" by (cases "time_now w1")
        show ?thesis
        proof (cases "elapsed_seconds now start > 3")
          case True
          with ne Inr b None tn h1 show ?thesis by simp
        next
          case False
          have "inv_res h1 (sendCommand_wait n opcode start h1 w2)"
            using "6.IH"(2) [of b r "(h1, w1)" h1 w1 now w2] ne Inr b None tn False by simp
          then have "inv_res h (sendCommand_wait n opcode start h1 w2)"
            by (rule inv_res_trans [OF h1])
          with ne Inr b None tn False show ?thesis by simp
        qed
      qed
    qed
  qed
qed

subsection \<open>Evaluation on literal lists\<close>

lemma replicate_numeral: "replicate (numeral k) x = x # replicate (pred_numeral k) x"
  by (simp add: numeral_eq_Suc)

lemma list_update_numeral: "(x # xs)[numeral k := y] = x # xs[pred_numeral k := y]"
  by (simp add: numeral_eq_Suc)

subsection \<open>The scanning flag of \<^verbatim>\<open>leSetScanEnable\<close>\<close>

text \<open>
  Claim C10. \<^verbatim>\<open>leSetScanEnable(enabled, duplicates)\<close> assigns \<^verbatim>\<open>h.scanning\<close> before it
  sends the command, and nothing that runs afterwards writes the flag: whenever the call
  returns, with \<^verbatim>\<open>nil\<close>, with the error of the transport, with a timeout or with an
  error of a nested \<^verbatim>\<open>poll\<close>, the flag equals \<open>enabled\<close>.
\<close>

theorem leSetScanEnable_sets_flag:
  "leSetScanEnable n enabled duplicates h w = Inr (r, h', w') \<Longrightarrow> scanning h' = enabled"
  using engine_inv(4) [of "h\<lparr>scanning := enabled\<rparr>" n
      "opcode_of OGF_LE_CTL OCF_LE_SET_SCAN_ENABLE"
      "[if enabled then 1 else 0, if duplicates then 1 else 0]" w]
  by (simp add: leSetScanEnable_def)

text \<open>
  On a silent transport the call ends in a timeout at the fourth reading of the clock
  after the start, and the flag is set all the same; when the write fails, a flag that
  was set is cleared as requested and stays so.
\<close>

theorem leSetScanEnable_sets_flag_witness:
  "leSetScanEnable (Suc (Suc (Suc (Suc 0)))) True False newHCI quiet_world =
     Inr (Some ErrHCITimeout,
          newHCI\<lparr>scanning := True, buf := put_command 0x200c [1, 0] (buf newHCI),
                 cmdCompleteOpcode := 0xffff, cmdCompleteStatus := 0xff\<rparr>,
          quiet_world\<lparr>tx := [take 6 (put_command 0x200c [1, 0] (buf newHCI))], ticks := 5\<rparr>)
   \<and> scanning (newHCI\<lparr>scanning := True, buf := put_command 0x200c [1, 0] (buf newHCI),
                 cmdCompleteOpcode := 0xffff, cmdCompleteStatus := 0xff\<rparr>) = True
   \<and> leSetScanEnable 0 False True (newHCI\<lparr>scanning := True\<rparr>)
         (quiet_world\<lparr>write_error := (\<lambda>k. True)\<rparr>) =
     Inr (Some ErrTransport,
          newHCI\<lparr>scanning := False, buf := put_command 0x200c [0, 1] (buf newHCI)\<rparr>,
          quiet_world\<lparr>write_error := (\<lambda>k. True),
                        tx := [take 6 (put_command 0x200c [0, 1] (buf newHCI))]\<rparr>)
   \<and> scanning (newHCI\<lparr>scanning := False, buf := put_command 0x200c [0, 1] (buf newHCI)\<rparr>) = False"
proof -
  have run: "leSetScanEnable (Suc (Suc (Suc (Suc 0)))) True False newHCI quiet_world =
     Inr (Some ErrHCITimeout,
          newHCI\<lparr>scanning := True, buf := put_command 0x200c [1, 0] (buf newHCI),
                 cmdCompleteOpcode := 0xffff, cmdCompleteStatus := 0xff\<rparr>,
          quiet_world\<lparr>tx := [take 6 (put_command 0x200c [1, 0] (buf newHCI))], ticks := 5\<rparr>)"
    by (simp add: leSetScanEnable_def opcode_of_def quiet_world_def
        uart_Write_def time_now_def elapsed_seconds_def Let_def)
  have fail: "leSetScanEnable 0 False True (newHCI\<lparr>scanning := True\<rparr>)
         (quiet_world\<lparr>write_error := (\<lambda>k. True)\<rparr>) =
     Inr (Some ErrTransport,
          newHCI\<lparr>scanning := False, buf := put_command 0x200c [0, 1] (buf newHCI)\<rparr>,
          quiet_world\<lparr>write_error := (\<lambda>k. True),
                        tx := [take 6 (put_command 0x200c [0, 1] (buf newHCI))]\<rparr>)"
    by (simp add: leSetScanEnable_def opcode_of_def quiet_world_def uart_Write_def Let_def)
  from leSetScanEnable_sets_flag [OF run] leSetScanEnable_sets_flag [OF fail] run fail
  show ?thesis by simp
qed

subsection \<open>Unknown packet types\<close>

text \<open>
  Claim C8 as stated fails on the earlier engine: there a new frame that starts with the
  byte 0x00 ends \<^verbatim>\<open>poll\<close> with \<^verbatim>\<open>ErrHCIUnknown\<close>, and the bytes behind it stay in the
  transport.
\<close>

theorem poll_v1_unknown_packet_counterexample:
  "poll_loop_v1 0 (buf newHCI) [Some 0x00, Some 0x04, Some 0x13] =
     (Inl ErrHCIUnknown, (buf newHCI)[0 := 0x00], [Some 0x04, Some 0x13])"
  by (simp add: Let_def)

text \<open>
  Claim C8, as amended. When the first byte of a new frame is none of the packet types
  0x01, 0x02 and 0x04, the \<^verbatim>\<open>poll\<close> of the current engine stores it at \<^verbatim>\<open>h.buf[0]\<close>, sets
  the running count back to zero and goes on with the bytes that follow: the call
  behaves as a \<^verbatim>\<open>poll\<close> of the rest of the stream, and \<^verbatim>\<open>ErrHCIUnknown\<close> is never the
  error of a \<^verbatim>\<open>poll\<close>. The \<^verbatim>\<open>poll\<close> of the earlier engine does the same for the byte 0xff
  only; for any other such byte it returns \<^verbatim>\<open>ErrHCIUnknown\<close>.
\<close>

theorem poll_resyncs_on_unknown_packet:
  assumes "b \<noteq> HCI_COMMAND_PKT" and "b \<noteq> HCI_ACLDATA_PKT" and "b \<noteq> HCI_EVENT_PKT"
    and "length (buf h) = 256"
  shows "poll_loop 0 (buf h) (Some b # r) = poll_loop 0 ((buf h)[0 := b]) r
       \<and> poll n h (w\<lparr>rx := Some b # r\<rparr>) = poll n (h\<lparr>buf := (buf h)[0 := b]\<rparr>) (w\<lparr>rx := r\<rparr>)
       \<and> poll m h0 w0 \<noteq> Inr (Some ErrHCIUnknown, h', w')
       \<and> poll_loop_v1 0 (buf h) (Some b # r) =
           (if b = 0xff then poll_loop_v1 0 ((buf h)[0 := b]) r
            else (Inl ErrHCIUnknown, (buf h)[0 := b], r))"
proof -
  have loop: "poll_loop 0 (buf h) (Some b # r) = poll_loop 0 ((buf h)[0 := b]) r"
    using assms by (simp add: Let_def)
  have "poll n h (w\<lparr>rx := Some b # r\<rparr>) = poll n (h\<lparr>buf := (buf h)[0 := b]\<rparr>) (w\<lparr>rx := r\<rparr>)"
    by (simp add: loop del: poll_loop.simps split: prod.splits frame.splits option.splits)
  moreover have "poll m h0 w0 \<noteq> Inr (Some ErrHCIUnknown, h', w')"
    using engine_inv(1) [of h0 m w0] by auto
  moreover have "poll_loop_v1 0 (buf h) (Some b # r) =
           (if b = 0xff then poll_loop_v1 0 ((buf h)[0 := b]) r
            else (Inl ErrHCIUnknown, (buf h)[0 := b], r))"
    using assms by (simp add: Let_def)
  ultimately show ?thesis using loop by simp
qed

theorem poll_resyncs_on_unknown_packet_witness:
  "(poll_loop 0 (buf newHCI) [Some 0xff, Some 0x04] = poll_loop 0 ((buf newHCI)[0 := 0xff]) [Some 0x04]
    \<and> poll 0 newHCI (quiet_world\<lparr>rx := [Some 0xff, Some 0x04]\<rparr>) =
        poll 0 (newHCI\<lparr>buf := (buf newHCI)[0 := 0xff]\<rparr>) (quiet_world\<lparr>rx := [Some 0x04]\<rparr>)
    \<and> poll 0 newHCI quiet_world \<noteq> Inr (Some ErrHCIUnknown, newHCI, quiet_world)
    \<and> poll_loop_v1 0 (buf newHCI) [Some 0xff, Some 0x04] =
        poll_loop_v1 0 ((buf newHCI)[0 := 0xff]) [Some 0x04])
   \<and> (poll_loop 0 (buf newHCI) [Some 0x00, Some 0x04] = poll_loop 0 ((buf newHCI)[0 := 0x00]) [Some 0x04]
    \<and> poll_loop_v1 0 (buf newHCI) [Some 0x00, Some 0x04] =
        (Inl ErrHCIUnknown, (buf newHCI)[0 := 0x00], [Some 0x04]))"
  using poll_resyncs_on_unknown_packet [of "0xff" newHCI "[Some 0x04]" 0 quiet_world 0 newHCI
      quiet_world newHCI quiet_world]
    poll_resyncs_on_unknown_packet [of "0x00" newHCI "[Some 0x04]" 0 quiet_world 0 newHCI
      quiet_world newHCI quiet_world]
  by (simp del: poll_loop.simps poll_loop_v1.simps poll.simps)

subsection \<open>The frame assembler within one call of \<^verbatim>\<open>poll\<close>\<close>

lemma unat_byte_succ: "unat (i :: byte) < 255 \<Longrightarrow> unat (i + 1) = Suc (unat i)"
  by (simp add: unat_word_ariths)

lemma unat_hdr_plus: "unat (h :: byte) + unat (ln :: byte) < 256 \<Longrightarrow> unat (h + ln) = unat h + unat ln"
  by (simp add: unat_word_ariths)

lemma byte_shift8 [simp]: "push_bit 8 (x :: byte) = 0"
  by (simp add: push_bit_eq_0_iff)

text \<open>
  One byte that does not complete the frame, then any number of them (by induction on
  the bytes, for every count and buffer that hold the frame so far), then the byte that
  completes it. \<open>f\<close> is the frame with its packet type, \<open>bf\<close> the receive buffer.
\<close>

lemma event_step:
  assumes "length bf = 256" and "Suc (unat i) < 3 + unat plen" and "3 + unat plen < 256"
    and "0 < unat i \<Longrightarrow> bf ! 0 = HCI_EVENT_PKT" and "unat i = 0 \<Longrightarrow> x = HCI_EVENT_PKT"
    and "2 < unat i \<Longrightarrow> bf ! 2 = plen"
  shows "poll_loop i bf (Some x # rest) = poll_loop (i + 1) (bf[unat i := x]) rest"
proof -
  have k: "unat i < 255" using assms by simp
  have suc: "unat (i + 1) = Suc (unat i)" using k by (rule unat_byte_succ)
  have b0: "bf[unat i := x] ! 0 = HCI_EVENT_PKT"
    using assms by (cases "unat i") simp_all
  have thr: "\<not> (3 < i + 1 \<and> 3 + (bf[unat i := x]) ! 2 \<le> i + 1)"
  proof (cases "Suc (unat i) \<le> 3")
    case True
    then have "\<not> 3 < i + 1"
      by (simp add: word_less_nat_alt suc)
    then show ?thesis by simp
  next
    case False
    then have "bf[unat i := x] ! 2 = plen" using assms by simp
    moreover have "unat (3 + plen) = 3 + unat plen"
      using unat_hdr_plus [of 3 plen] assms by simp
    ultimately have "\<not> 3 + (bf[unat i := x]) ! 2 \<le> i + 1"
      using assms(2) by (simp add: word_le_nat_alt suc)
    then show ?thesis by simp
  qed
  show ?thesis
    using b0 thr by (auto simp: Let_def)
qed

lemma event_prefix:
  assumes len: "length bf = 256" and f: "f = HCI_EVENT_PKT # evt # plen # payload"
    and lf: "length payload = unat plen" and hi: "3 + unat plen < 256"
    and inv: "take (unat i) bf = take (unat i) f"
    and short: "unat i + length xs < length f"
    and xs: "xs = take (length xs) (drop (unat i) f)"
  shows "poll_loop i bf (map Some xs @ rest) =
         poll_loop (i + of_nat (length xs)) (take (unat i) bf @ xs @ drop (unat i + length xs) bf) rest"
  using len inv short xs
proof (induction xs arbitrary: i bf)
  case Nil
  show ?case by simp
next
  case (Cons x xs)
  have lenf: "length f = 3 + unat plen" using f lf by simp
  have k: "unat i < length f" "Suc (unat i) < length f" using Cons.prems(3) by simp_all
  have x: "x = f ! unat i" and xs': "xs = take (length xs) (drop (Suc (unat i)) f)"
    using Cons.prems(4) k by (simp_all add: take_Suc_conv_app_nth Cons_nth_drop_Suc [symmetric])
  have b0: "0 < unat i \<Longrightarrow> bf ! 0 = HCI_EVENT_PKT"
  proof -
    assume "0 < unat i"
    then have "bf ! 0 = take (unat i) bf ! 0" by simp
    also have "\<dots> = take (unat i) f ! 0" using Cons.prems(2) by simp
    also have "\<dots> = HCI_EVENT_PKT" using \<open>0 < unat i\<close> f by simp
    finally show ?thesis .
  qed
  have x0: "unat i = 0 \<Longrightarrow> x = HCI_EVENT_PKT" using x f by simp
  have b2: "2 < unat i \<Longrightarrow> bf ! 2 = plen"
  proof -
    assume "2 < unat i"
    then have "bf ! 2 = take (unat i) bf ! 2" by simp
    also have "\<dots> = take (unat i) f ! 2" using Cons.prems(2) by simp
    also have "\<dots> = plen" using \<open>2 < unat i\<close> f by simp
    finally show ?thesis .
  qed
  have step: "poll_loop i bf (Some x # map Some xs @ rest) =
              poll_loop (i + 1) (bf[unat i := x]) (map Some xs @ rest)"
    using event_step [OF Cons.prems(1) _ hi b0 x0 b2] k lenf by simp
  have suc: "unat (i + 1) = Suc (unat i)"
    using k lenf hi by (simp add: unat_byte_succ)
  have inv': "take (unat (i + 1)) (bf[unat i := x]) = take (unat (i + 1)) f"
    using Cons.prems(1,2) k x hi lenf
    by (simp add: suc take_Suc_conv_app_nth)
  have "poll_loop (i + 1) (bf[unat i := x]) (map Some xs @ rest) =
        poll_loop (i + 1 + of_nat (length xs))
          (take (unat (i + 1)) (bf[unat i := x]) @ xs @ drop (unat (i + 1) + length xs) (bf[unat i := x])) rest"
    using Cons.IH [of "bf[unat i := x]" "i + 1"] Cons.prems(1,3) inv' xs' by (simp add: suc)
  also have "take (unat (i + 1)) (bf[unat i := x]) = take (unat i) bf @ [x]"
    using Cons.prems(1) k hi lenf by (simp add: suc take_Suc_conv_app_nth)
  also have "drop (unat (i + 1) + length xs) (bf[unat i := x]) = drop (unat i + length (x # xs)) bf"
    by (simp add: suc)
  finally show ?case using step by (simp add: add.assoc)
qed


lemma event_last:
  assumes "length bf = 256" and "unat i = 2 + unat plen" and "1 \<le> unat plen"
    and "3 + unat plen < 256" and "bf ! 0 = HCI_EVENT_PKT" and "bf ! 2 = plen"
  shows "poll_loop i bf (Some x # rest) = (EventFrame (3 + plen), bf[unat i := x], rest)"
proof -
  have suc: "unat (i + 1) = 3 + unat plen" using assms by (simp add: unat_byte_succ)
  have thr: "unat (3 + plen) = 3 + unat plen"
    using unat_hdr_plus [of 3 plen] assms by simp
  have eq: "i + 1 = 3 + plen"
    using suc thr by (simp add: word_unat_eq_iff)
  have "3 < i + 1" using assms(3) by (simp add: word_less_nat_alt suc)
  moreover have "3 + plen \<le> i + 1" by (simp add: eq)
  ultimately show ?thesis
    using assms eq by (simp add: Let_def)
qed

lemma event_frame_emitted:
  assumes len: "length bf = 256" and f: "f = HCI_EVENT_PKT # evt # plen # payload"
    and lf: "length payload = unat plen" and lo: "1 \<le> unat plen" and hi: "unat plen \<le> 252"
  shows "poll_loop 0 bf (map Some f @ rest) = (EventFrame (3 + plen), f @ drop (length f) bf, rest)"
proof -
  define xs where "xs = butlast f"
  have lenf: "length f = 3 + unat plen" using f lf by simp
  have lxs: "length xs = 2 + unat plen" using lenf by (simp add: xs_def)
  have fx: "f = xs @ [last f]" using f by (simp add: xs_def)
  have xs_take: "xs = take (length xs) (drop (unat (0::byte)) f)"
    by (simp add: xs_def butlast_conv_take)
  have "length xs < 256" using lxs hi by simp
  then have ulen: "unat (of_nat (length xs) :: byte) = length xs"
    by (simp add: unat_of_nat)
  have "poll_loop 0 bf (map Some xs @ (Some (last f) # rest)) =
        poll_loop (0 + of_nat (length xs))
          (take (unat (0::byte)) bf @ xs @ drop (unat (0::byte) + length xs) bf) (Some (last f) # rest)"
    using lenf lxs hi
    by (intro event_prefix [OF len f lf _ _ _ xs_take]) simp_all
  also have "\<dots> = poll_loop (of_nat (length xs)) (xs @ drop (length xs) bf) (Some (last f) # rest)"
    by simp
  also have "\<dots> = (EventFrame (3 + plen), (xs @ drop (length xs) bf)[unat (of_nat (length xs) :: byte) := last f], rest)"
  proof (rule event_last)
    show "length (xs @ drop (length xs) bf) = 256" using len lxs hi by simp
    show "unat (of_nat (length xs) :: byte) = 2 + unat plen" using ulen lxs by simp
    show "1 \<le> unat plen" by (rule lo)
    show "3 + unat plen < 256" using hi by simp
    have "xs ! 0 = f ! 0" "xs ! 2 = f ! 2"
      using lxs lo lenf by (simp_all add: xs_def nth_butlast)
    then show "(xs @ drop (length xs) bf) ! 0 = HCI_EVENT_PKT" "(xs @ drop (length xs) bf) ! 2 = plen"
      using lxs lo f by (simp_all add: nth_append)
  qed
  also have "(xs @ drop (length xs) bf)[unat (of_nat (length xs) :: byte) := last f] = f @ drop (length f) bf"
  proof -
    have "length xs < length bf" using len lxs hi by simp
    then have "drop (length xs) bf = bf ! length xs # drop (Suc (length xs)) bf"
      by (rule Cons_nth_drop_Suc [symmetric])
    then have "(xs @ drop (length xs) bf)[length xs := last f] = xs @ last f # drop (Suc (length xs)) bf"
      by (simp add: list_update_append)
    also have "\<dots> = f @ drop (length f) bf"
      using fx lenf lxs by (metis append.assoc append_Cons append_Nil add_Suc numeral_3_eq_3 numeral_2_eq_2)
    finally show ?thesis by (simp add: ulen)
  qed
  finally show ?thesis using fx by (metis map_append list.simps(8,9) append.assoc append_Cons append_Nil)
qed

lemma event_frame_incomplete:
  assumes len: "length bf = 256" and f: "f = HCI_EVENT_PKT # evt # plen # payload"
    and lf: "length payload = unat plen" and hi: "unat plen \<le> 252"
    and m: "m < length f"
  shows "poll_loop 0 bf (map Some (take m f) @ None # rest) = (NoFrame, take m f @ drop m bf, rest)"
proof -
  have "poll_loop 0 bf (map Some (take m f) @ None # rest) =
        poll_loop (0 + of_nat (length (take m f)))
          (take (unat (0::byte)) bf @ take m f @ drop (unat (0::byte) + length (take m f)) bf) (None # rest)"
    using m hi by (intro event_prefix [OF len f lf]) simp_all
  then show ?thesis using m by (simp add: min_def)
qed


lemma acl_step:
  assumes "length bf = 256" and "Suc (unat i) < 5 + unat ll" and "5 + unat ll < 256"
    and "0 < unat i \<Longrightarrow> bf ! 0 = HCI_ACLDATA_PKT" and "unat i = 0 \<Longrightarrow> x = HCI_ACLDATA_PKT"
    and "3 < unat i \<Longrightarrow> bf ! 3 = ll"
  shows "poll_loop i bf (Some x # rest) = poll_loop (i + 1) (bf[unat i := x]) rest"
proof -
  have k: "unat i < 255" using assms by simp
  have suc: "unat (i + 1) = Suc (unat i)" using k by (rule unat_byte_succ)
  have b0: "bf[unat i := x] ! 0 = HCI_ACLDATA_PKT"
    using assms by (cases "unat i") simp_all
  have thr: "\<not> (5 < i + 1 \<and> 5 + (bf[unat i := x]) ! 3 \<le> i + 1)"
  proof (cases "Suc (unat i) \<le> 5")
    case True
    then have "\<not> 5 < i + 1"
      by (simp add: word_less_nat_alt suc)
    then show ?thesis by simp
  next
    case False
    then have "bf[unat i := x] ! 3 = ll" using assms by simp
    moreover have "unat (5 + ll) = 5 + unat ll"
      using unat_hdr_plus [of 5 ll] assms by simp
    ultimately have "\<not> 5 + (bf[unat i := x]) ! 3 \<le> i + 1"
      using assms(2) by (simp add: word_le_nat_alt suc)
    then show ?thesis by simp
  qed
  show ?thesis
    using b0 thr by (auto simp: Let_def)
qed

lemma acl_prefix:
  assumes len: "length bf = 256" and f: "f = HCI_ACLDATA_PKT # hl # hh # ll # lh # payload"
    and lf: "length payload = unat ll" and hi: "5 + unat ll < 256"
    and inv: "take (unat i) bf = take (unat i) f"
    and short: "unat i + length xs < length f"
    and xs: "xs = take (length xs) (drop (unat i) f)"
  shows "poll_loop i bf (map Some xs @ rest) =
         poll_loop (i + of_nat (length xs)) (take (unat i) bf @ xs @ drop (unat i + length xs) bf) rest"
  using len inv short xs
proof (induction xs arbitrary: i bf)
  case Nil
  show ?case by simp
next
  case (Cons x xs)
  have lenf: "length f = 5 + unat ll" using f lf by simp
  have k: "unat i < length f" "Suc (unat i) < length f" using Cons.prems(3) by simp_all
  have x: "x = f ! unat i" and xs': "xs = take (length xs) (drop (Suc (unat i)) f)"
    using Cons.prems(4) k by (simp_all add: take_Suc_conv_app_nth Cons_nth_drop_Suc [symmetric])
  have b0: "0 < unat i \<Longrightarrow> bf ! 0 = HCI_ACLDATA_PKT"
  proof -
    assume "0 < unat i"
    then have "bf ! 0 = take (unat i) bf ! 0" by simp
    also have "\<dots> = take (unat i) f ! 0" using Cons.prems(2) by simp
    also have "\<dots> = HCI_ACLDATA_PKT" using \<open>0 < unat i\<close> f by simp
    finally show ?thesis .
  qed
  have x0: "unat i = 0 \<Longrightarrow> x = HCI_ACLDATA_PKT" using x f by simp
  have b3: "3 < unat i \<Longrightarrow> bf ! 3 = ll"
  proof -
    assume "3 < unat i"
    then have "bf ! 3 = take (unat i) bf ! 3" by simp
    also have "\<dots> = take (unat i) f ! 3" using Cons.prems(2) by simp
    also have "\<dots> = ll" using \<open>3 < unat i\<close> f by (simp add: numeral_3_eq_3)
    finally show ?thesis .
  qed
  have step: "poll_loop i bf (Some x # map Some xs @ rest) =
              poll_loop (i + 1) (bf[unat i := x]) (map Some xs @ rest)"
    using acl_step [OF Cons.prems(1) _ hi b0 x0 b3] k lenf by simp
  have suc: "unat (i + 1) = Suc (unat i)"
    using k lenf hi by (simp add: unat_byte_succ)
  have inv': "take (unat (i + 1)) (bf[unat i := x]) = take (unat (i + 1)) f"
    using Cons.prems(1,2) k x hi lenf
    by (simp add: suc take_Suc_conv_app_nth)
  have "poll_loop (i + 1) (bf[unat i := x]) (map Some xs @ rest) =
        poll_loop (i + 1 + of_nat (length xs))
          (take (unat (i + 1)) (bf[unat i := x]) @ xs @ drop (unat (i + 1) + length xs) (bf[unat i := x])) rest"
    using Cons.IH [of "bf[unat i := x]" "i + 1"] Cons.prems(1,3) inv' xs' by (simp add: suc)
  also have "take (unat (i + 1)) (bf[unat i := x]) = take (unat i) bf @ [x]"
    using Cons.prems(1) k hi lenf by (simp add: suc take_Suc_conv_app_nth)
  also have "drop (unat (i + 1) + length xs) (bf[unat i := x]) = drop (unat i + length (x # xs)) bf"
    by (simp add: suc)
  finally show ?case using step by (simp add: add.assoc)
qed

lemma acl_last:
  assumes "length bf = 256" and "unat i = 4 + unat ll" and "1 \<le> unat ll"
    and "5 + unat ll < 256" and "bf ! 0 = HCI_ACLDATA_PKT" and "bf ! 3 = ll"
  shows "poll_loop i bf (Some x # rest) = (ACLFrame (5 + ll), bf[unat i := x], rest)"
proof -
  have suc: "unat (i + 1) = 5 + unat ll" using assms by (simp add: unat_byte_succ)
  have thr: "unat (5 + ll) = 5 + unat ll"
    using unat_hdr_plus [of 5 ll] assms by simp
  have eq: "i + 1 = 5 + ll"
    using suc thr by (simp add: word_unat_eq_iff)
  have "5 < i + 1" using assms(3) by (simp add: word_less_nat_alt suc)
  moreover have "5 + ll \<le> i + 1" by (simp add: eq)
  ultimately show ?thesis
    using assms eq by (simp add: Let_def)
qed

lemma acl_frame_emitted:
  assumes len: "length bf = 256" and f: "f = HCI_ACLDATA_PKT # hl # hh # ll # lh # payload"
    and lf: "length payload = unat ll" and lo: "1 \<le> unat ll" and hi: "unat ll \<le> 250"
  shows "poll_loop 0 bf (map Some f @ rest) = (ACLFrame (5 + ll), f @ drop (length f) bf, rest)"
proof -
  define xs where "xs = butlast f"
  have lenf: "length f = 5 + unat ll" using f lf by simp
  have lxs: "length xs = 4 + unat ll" using lenf by (simp add: xs_def)
  have fx: "f = xs @ [last f]" using f by (simp add: xs_def)
  have xs_take: "xs = take (length xs) (drop (unat (0::byte)) f)"
    by (simp add: xs_def butlast_conv_take)
  have "length xs < 256" using lxs hi by simp
  then have ulen: "unat (of_nat (length xs) :: byte) = length xs"
    by (simp add: unat_of_nat)
  have "poll_loop 0 bf (map Some xs @ (Some (last f) # rest)) =
        poll_loop (0 + of_nat (length xs))
          (take (unat (0::byte)) bf @ xs @ drop (unat (0::byte) + length xs) bf) (Some (last f) # rest)"
    using lenf lxs hi
    by (intro acl_prefix [OF len f lf _ _ _ xs_take]) simp_all
  also have "\<dots> = poll_loop (of_nat (length xs)) (xs @ drop (length xs) bf) (Some (last f) # rest)"
    by simp
  also have "\<dots> = (ACLFrame (5 + ll), (xs @ drop (length xs) bf)[unat (of_nat (length xs) :: byte) := last f], rest)"
  proof (rule acl_last)
    show "length (xs @ drop (length xs) bf) = 256" using len lxs hi by simp
    show "unat (of_nat (length xs) :: byte) = 4 + unat ll" using ulen lxs by simp
    show "1 \<le> unat ll" by (rule lo)
    show "5 + unat ll < 256" using hi by simp
    have "xs ! 0 = f ! 0" "xs ! 3 = f ! 3"
      using lxs lo lenf by (simp_all add: xs_def nth_butlast)
    then show "(xs @ drop (length xs) bf) ! 0 = HCI_ACLDATA_PKT" "(xs @ drop (length xs) bf) ! 3 = ll"
      using lxs lo f by (simp_all add: nth_append numeral_3_eq_3)
  qed
  also have "(xs @ drop (length xs) bf)[unat (of_nat (length xs) :: byte) := last f] = f @ drop (length f) bf"
  proof -
    have "length xs < length bf" using len lxs hi by simp
    then have "drop (length xs) bf = bf ! length xs # drop (Suc (length xs)) bf"
      by (rule Cons_nth_drop_Suc [symmetric])
    then have "(xs @ drop (length xs) bf)[length xs := last f] = xs @ last f # drop (Suc (length xs)) bf"
      by (simp add: list_update_append)
    also have "Suc (length xs) = length f" using lenf lxs by simp
    also have "xs @ last f # drop (length f) bf = f @ drop (length f) bf"
      using fx by (metis append.assoc append_Cons append_Nil)
    finally show ?thesis by (simp add: ulen)
  qed
  finally show ?thesis using fx by (metis map_append list.simps(8,9) append.assoc append_Cons append_Nil)
qed

lemma acl_frame_incomplete:
  assumes len: "length bf = 256" and f: "f = HCI_ACLDATA_PKT # hl # hh # ll # lh # payload"
    and lf: "length payload = unat ll" and hi: "unat ll \<le> 250"
    and m: "m < length f"
  shows "poll_loop 0 bf (map Some (take m f) @ None # rest) = (NoFrame, take m f @ drop m bf, rest)"
proof -
  have "poll_loop 0 bf (map Some (take m f) @ None # rest) =
        poll_loop (0 + of_nat (length (take m f)))
          (take (unat (0::byte)) bf @ take m f @ drop (unat (0::byte) + length (take m f)) bf) (None # rest)"
    using m hi by (intro acl_prefix [OF len f lf]) simp_all
  then show ?thesis using m by (simp add: min_def)
qed

text \<open>
  Claim C6, as amended. Within one call of \<^verbatim>\<open>poll\<close> that starts at a frame boundary, an
  event frame with a declared length from 1 to 252, or an ACL-data frame with a declared
  length from 1 to 250 (high length byte 0), is emitted exactly when the count of the
  call reaches the header length (3 or 5) plus the declared length: the loop leaves with
  the frame at that count and consumes nothing after it, and if the transport runs empty
  after any smaller number \<open>m\<close> of its bytes the call ends without a frame.
\<close>

theorem frame_emitted_within_one_poll:
  assumes "length bf = 256" and "length payload = unat ln" and "1 \<le> unat ln"
    and "ev = HCI_EVENT_PKT # evt # ln # payload"
    and "acl = HCI_ACLDATA_PKT # hl # hh # ln # 0 # payload"
  shows "(unat ln \<le> 252 \<longrightarrow>
            poll_loop 0 bf (map Some ev @ rest) = (EventFrame (3 + ln), ev @ drop (length ev) bf, rest)
          \<and> (m < length ev \<longrightarrow>
               poll_loop 0 bf (map Some (take m ev) @ None # rest) =
                 (NoFrame, take m ev @ drop m bf, rest)))
       \<and> (unat ln \<le> 250 \<longrightarrow>
            poll_loop 0 bf (map Some acl @ rest) = (ACLFrame (5 + ln), acl @ drop (length acl) bf, rest)
          \<and> (m < length acl \<longrightarrow>
               poll_loop 0 bf (map Some (take m acl) @ None # rest) =
                 (NoFrame, take m acl @ drop m bf, rest)))"
proof -
  have e1: "unat ln \<le> 252 \<Longrightarrow>
      poll_loop 0 bf (map Some ev @ rest) = (EventFrame (3 + ln), ev @ drop (length ev) bf, rest)"
    by (rule event_frame_emitted [OF assms(1) assms(4) assms(2) assms(3)])
  have e2: "unat ln \<le> 252 \<Longrightarrow> m < length ev \<Longrightarrow>
      poll_loop 0 bf (map Some (take m ev) @ None # rest) = (NoFrame, take m ev @ drop m bf, rest)"
    by (rule event_frame_incomplete [OF assms(1) assms(4) assms(2)])
  have a1: "unat ln \<le> 250 \<Longrightarrow>
      poll_loop 0 bf (map Some acl @ rest) = (ACLFrame (5 + ln), acl @ drop (length acl) bf, rest)"
    by (rule acl_frame_emitted [OF assms(1) assms(5) assms(2) assms(3)])
  have a2: "unat ln \<le> 250 \<Longrightarrow> m < length acl \<Longrightarrow>
      poll_loop 0 bf (map Some (take m acl) @ None # rest) = (NoFrame, take m acl @ drop m bf, rest)"
    by (rule acl_frame_incomplete [OF assms(1) assms(5) assms(2)])
  show ?thesis using e1 e2 a1 a2 by blast
qed

theorem frame_emitted_within_one_poll_witness:
  "poll_loop 0 (buf newHCI) (map Some [0x04, 0x0e, 0x04, 0x01, 0x03, 0x0c, 0x00] @ [Some 0x04]) =
     (EventFrame (3 + 0x04),
      [0x04, 0x0e, 0x04, 0x01, 0x03, 0x0c, 0x00] @
        drop (length [0x04, 0x0e, 0x04, 0x01, 0x03, 0x0c, 0x00 :: byte]) (buf newHCI),
      [Some 0x04])
   \<and> poll_loop 0 (buf newHCI)
         (map Some (take 6 [0x04, 0x0e, 0x04, 0x01, 0x03, 0x0c, 0x00]) @ None # [Some 0x04]) =
     (NoFrame, take 6 [0x04, 0x0e, 0x04, 0x01, 0x03, 0x0c, 0x00] @ drop 6 (buf newHCI), [Some 0x04])
   \<and> poll_loop 0 (buf newHCI)
         (map Some [0x02, 0x40, 0x00, 0x04, 0x00, 0x01, 0x03, 0x0c, 0x00] @ [Some 0x04]) =
     (ACLFrame (5 + 0x04),
      [0x02, 0x40, 0x00, 0x04, 0x00, 0x01, 0x03, 0x0c, 0x00] @
        drop (length [0x02, 0x40, 0x00, 0x04, 0x00, 0x01, 0x03, 0x0c, 0x00 :: byte]) (buf newHCI),
      [Some 0x04])
   \<and> poll_loop 0 (buf newHCI)
         (map Some (take 6 [0x02, 0x40, 0x00, 0x04, 0x00, 0x01, 0x03, 0x0c, 0x00]) @ None # [Some 0x04]) =
     (NoFrame, take 6 [0x02, 0x40, 0x00, 0x04, 0x00, 0x01, 0x03, 0x0c, 0x00] @ drop 6 (buf newHCI),
      [Some 0x04])"
  using frame_emitted_within_one_poll [of "buf newHCI" "[0x01, 0x03, 0x0c, 0x00]" "0x04"
      "[0x04, 0x0e, 0x04, 0x01, 0x03, 0x0c, 0x00]" "0x0e"
      "[0x02, 0x40, 0x00, 0x04, 0x00, 0x01, 0x03, 0x0c, 0x00]" "0x40" "0x00" "[Some 0x04]" 6]
  by (simp del: poll_loop.simps)

text \<open>
  Claim C6 as stated fails: the seven bytes of a command-complete frame, with the
  transport empty for a moment after the third, are taken by two calls of \<^verbatim>\<open>poll\<close> and
  no frame is emitted at all (the second call starts its count at 0 and takes the byte
  0x01 for a packet type); an event frame with declared length 0 is not emitted when
  its three bytes are there, only with the first byte of the next frame; and with a
  declared length of 255 the frame is emitted at the fourth byte.
\<close>

theorem frame_split_across_polls_counterexample:
  "fst (poll_loop 0 (buf newHCI)
          [Some 0x04, Some 0x0e, Some 0x04, None, Some 0x01, Some 0x03, Some 0x0c, Some 0x00]) = NoFrame
   \<and> snd (snd (poll_loop 0 (buf newHCI)
          [Some 0x04, Some 0x0e, Some 0x04, None, Some 0x01, Some 0x03, Some 0x0c, Some 0x00])) =
       [Some 0x01, Some 0x03, Some 0x0c, Some 0x00]
   \<and> fst (poll_loop 0
         (fst (snd (poll_loop 0 (buf newHCI)
            [Some 0x04, Some 0x0e, Some 0x04, None, Some 0x01, Some 0x03, Some 0x0c, Some 0x00])))
         [Some 0x01, Some 0x03, Some 0x0c, Some 0x00]) = NoFrame
   \<and> fst (poll_loop 0 (buf newHCI) [Some 0x04, Some 0x13, Some 0x00]) = NoFrame
   \<and> fst (poll_loop 0 (buf newHCI) [Some 0x04, Some 0x13, Some 0x00, Some 0x04]) = EventFrame 4
   \<and> fst (poll_loop 0 (buf newHCI) [Some 0x04, Some 0x13, Some 0xff, Some 0x01]) = EventFrame 4"
  by (simp add: Let_def)

text \<open>
  What \<^verbatim>\<open>poll\<close> does with the frame: an event frame is handed to \<^verbatim>\<open>handleEventData\<close> as
  the slice \<^verbatim>\<open>h.buf[1:i]\<close>, an ACL-data frame to the handler that does nothing.
\<close>

lemma poll_event_frame:
  assumes len: "length (buf h) = 256" and f: "f = HCI_EVENT_PKT # evt # ln # payload"
    and lf: "length payload = unat ln" and lo: "1 \<le> unat ln" and hi: "unat ln \<le> 252"
  shows "poll n h (w\<lparr>rx := map Some f @ rest\<rparr>) =
         handleEventData n \<lparr>off = 1, len = 2 + unat ln, cap = 255\<rparr>
           (h\<lparr>buf := f @ drop (length f) (buf h)\<rparr>) (w\<lparr>rx := rest\<rparr>)"
proof -
  have loop: "poll_loop 0 (buf h) (map Some f @ rest) =
      (EventFrame (3 + ln), f @ drop (length f) (buf h), rest)"
    by (rule event_frame_emitted [OF len f lf lo hi])
  have u: "unat (3 + ln) = 3 + unat ln"
    using unat_hdr_plus [of 3 ln] hi by simp
  have "length (f @ drop (length f) (buf h)) = 256"
    using len f lf hi by simp
  then have sl: "frame_slice (f @ drop (length f) (buf h)) (3 + ln) =
      Some \<lparr>off = 1, len = 2 + unat ln, cap = 255\<rparr>"
    using hi by (simp add: frame_slice_def reslice_def u)
  show ?thesis
    using loop sl by (simp del: poll_loop.simps handleEventData.simps)
qed

lemma poll_acl_frame:
  assumes len: "length (buf h) = 256" and f: "f = HCI_ACLDATA_PKT # hl # hh # ln # lh # payload"
    and lf: "length payload = unat ln" and lo: "1 \<le> unat ln" and hi: "unat ln \<le> 250"
  shows "poll n h (w\<lparr>rx := map Some f @ rest\<rparr>) =
         Inr (None, h\<lparr>buf := f @ drop (length f) (buf h)\<rparr>, w\<lparr>rx := rest\<rparr>)"
proof -
  have loop: "poll_loop 0 (buf h) (map Some f @ rest) =
      (ACLFrame (5 + ln), f @ drop (length f) (buf h), rest)"
    by (rule acl_frame_emitted [OF len f lf lo hi])
  have u: "unat (5 + ln) = 5 + unat ln"
    using unat_hdr_plus [of 5 ln] hi by simp
  have "length (f @ drop (length f) (buf h)) = 256"
    using len f lf hi by simp
  then have sl: "frame_slice (f @ drop (length f) (buf h)) (5 + ln) =
      Some \<lparr>off = 1, len = 4 + unat ln, cap = 255\<rparr>"
    using hi by (simp add: frame_slice_def reslice_def u)
  show ?thesis
    using loop sl by (simp add: handleACLData_def del: poll_loop.simps)
qed

subsection \<open>Connect and the clock\<close>

text \<open>
  On a silent transport every iteration of the loop of \<^verbatim>\<open>Connect\<close> ends in the \<^verbatim>\<open>default\<close>
  case, whatever the clock reads, and the loop goes on: by induction on the fuel, for
  every adapter and every clock.
\<close>

lemma poll_silent: "rx w = [] \<Longrightarrow> poll n h w = Inr (None, h, w)"
  by simp

lemma Connect_loop_silent:
  "rx w = [] \<Longrightarrow> \<not> connected (connectData (a_hci a)) \<Longrightarrow> Connect_loop n start a w = Inl OutOfFuel"
proof (induction n arbitrary: a w)
  case 0
  show ?case by simp
next
  case (Suc n)
  obtain now w1 where tn: "time_now w = (now, w1)" by (cases "time_now w")
  then have rx1: "rx w1 = []" using Suc.prems(1) by (auto simp: time_now_def)
  have "Connect_loop n start (a\<lparr>a_hci := a_hci a\<rparr>) w1 = Inl OutOfFuel"
    using Suc.IH [of w1 "a\<lparr>a_hci := a_hci a\<rparr>"] rx1 Suc.prems(2) by simp
  then show ?case
    using Suc.prems tn by (simp add: poll_silent del: poll.simps)
qed

lemma Connect_loop_never_breaks: "Connect_loop n start a w \<noteq> Inr (None, a', w')"
proof (induction n arbitrary: a w)
  case 0
  show ?case by simp
next
  case (Suc n)
  show ?case
    using Suc.IH
    by (auto simp del: poll.simps split: sum.splits option.splits prod.splits)
qed

text \<open>
  The loop returns in two ways only: with a device once the slot is connected, or with
  the error of a \<^verbatim>\<open>poll\<close>. No reading of the clock ends it.
\<close>

lemma Connect_loop_returns_device_or_poll_error:
  "Connect_loop n start a w = Inr (Some (d, e), a', w') \<Longrightarrow>
   (d \<noteq> None \<and> e = None) \<or> (d = None \<and> e \<noteq> None)"
proof (induction n arbitrary: a w)
  case 0
  then show ?case by simp
next
  case (Suc n)
  show ?case
  proof (cases "poll n (a_hci a) w")
    case (Inl x)
    with Suc.prems show ?thesis by (simp del: poll.simps)
  next
    case (Inr b)
    obtain r h1 w1 where b: "b = (r, h1, w1)" by (cases b)
    show ?thesis
    proof (cases r)
      case (Some err)
      with Suc.prems Inr b show ?thesis by (auto simp del: poll.simps)
    next
      case None
      obtain now w2 where tn: "time_now w1 = (now, w2)" by (cases "time_now w1")
      show ?thesis
      proof (cases "connected (connectData h1)")
        case True
        with Suc.prems Inr b None show ?thesis by (auto simp del: poll.simps)
      next
        case False
        with Suc.prems Inr b None tn
        have "Connect_loop n start (a\<lparr>a_hci := h1\<rparr>) w2 = Inr (Some (d, e), a', w')"
          by (simp del: poll.simps)
        then show ?thesis by (rule Suc.IH)
      qed
    qed
  qed
qed

lemma Connect_loop_error:
  "Connect_loop n start a w = Inr (Some (d, Some e), a', w') \<Longrightarrow> engine_error (Some e)"
proof (induction n arbitrary: a w)
  case 0
  then show ?case by simp
next
  case (Suc n)
  show ?case
  proof (cases "poll n (a_hci a) w")
    case (Inl x)
    with Suc.prems show ?thesis by (simp del: poll.simps)
  next
    case (Inr b)
    obtain r h1 w1 where b: "b = (r, h1, w1)" by (cases b)
    have r: "engine_error r" using engine_inv(1) [of "a_hci a" n w] Inr b by simp
    show ?thesis
    proof (cases r)
      case (Some err)
      with Suc.prems Inr b r show ?thesis by (auto simp del: poll.simps)
    next
      case None
      obtain now w2 where tn: "time_now w1 = (now, w2)" by (cases "time_now w1")
      show ?thesis
      proof (cases "connected (connectData h1)")
        case True
        with Suc.prems Inr b None show ?thesis by (simp del: poll.simps)
      next
        case False
        with Suc.prems Inr b None tn
        have "Connect_loop n start (a\<lparr>a_hci := h1\<rparr>) w2 = Inr (Some (d, Some e), a', w')"
          by (simp del: poll.simps)
        then show ?thesis by (rule Suc.IH)
      qed
    qed
  qed
qed

lemma leCreateConn_error:
  "leCreateConn n i wi f pt p ot mi ma la st mc xc h w = Inr (r, h', w') \<Longrightarrow> engine_error r"
  using engine_inv(4) [of h n "opcode_of OGF_LE_CTL OCF_LE_CREATE_CONN"
      "le16 i @ le16 wi @ [f, pt] @ copy_bytes (replicate 6 0) p @ [ot] @
        le16 mi @ le16 ma @ le16 la @ le16 st @ le16 mc @ le16 xc" w]
  by (simp add: leCreateConn_def del: sendCommandWithParams.simps)

lemma Connect_never_ErrConnect:
  "Connect n addr a w \<noteq> Inr ((d, Some ErrConnect), a', w')"
proof
  assume c: "Connect n addr a w = Inr ((d, Some ErrConnect), a', w')"
  let ?cc = "leCreateConn n 0x0060 0x0030 0x00 (addr_typ addr) (makeNINAAddress (MAC addr))
             0x00 0x0006 0x000c 0x0000 0x00c8 0x0004 0x0006 (a_hci a) w"
  show False
  proof (cases ?cc)
    case (Inl x)
    with c show False by (simp add: Connect_def)
  next
    case (Inr b)
    obtain r h1 w1 where b: "b = (r, h1, w1)" by (cases b)
    have r: "engine_error r" using leCreateConn_error Inr b by blast
    show False
    proof (cases r)
      case (Some err)
      with c Inr b r show False by (auto simp: Connect_def)
    next
      case None
      obtain start w2 where tn: "time_now w1 = (start, w2)" by (cases "time_now w1")
      show False
      proof (cases "Connect_loop n start (a\<lparr>a_hci := h1\<rparr>) w2")
        case (Inl x)
        with c Inr b None tn show False by (simp add: Connect_def)
      next
        case loop: (Inr lb)
        obtain lr a2 w3 where lb: "lb = (lr, a2, w3)" by (cases lb)
        show False
        proof (cases lr)
          case None
          with loop lb Connect_loop_never_breaks show False by blast
        next
          case (Some res)
          with c Inr b \<open>r = None\<close> tn loop lb
          have "res = (d, Some ErrConnect)" by (simp add: Connect_def)
          with loop lb Some Connect_loop_error [of n start "a\<lparr>a_hci := h1\<rparr>" w2 d ErrConnect a2 w3]
          show False by simp
        qed
      qed
    qed
  qed
qed


lemma connected_newHCI [simp]: "\<not> connected (connectData newHCI)"
  by (simp add: newHCI_def)

lemma Connect_acknowledged_then_silent:
  "Connect n addr fresh_adapter (quiet_world\<lparr>rx := map Some ack_create_conn\<rparr>) = Inl OutOfFuel"
proof (cases n)
  case 0
  then show ?thesis
    by (simp add: Connect_def leCreateConn_def le16_def uart_Write_def time_now_def
        fresh_adapter_def quiet_world_def Let_def)
next
  case (Suc m)
  show ?thesis
  proof (cases m)
    case 0
    with Suc show ?thesis
      by (simp add: Connect_def leCreateConn_def le16_def uart_Write_def time_now_def
          fresh_adapter_def quiet_world_def Let_def ack_create_conn_def opcode_of_def
          frame_slice_def reslice_def idx_def decode_event_def on_CMD_STATUS_def
          elapsed_seconds_def)
  next
    case (Suc k)
    with \<open>n = Suc m\<close> show ?thesis
      by (simp add: Connect_def leCreateConn_def le16_def uart_Write_def time_now_def
          fresh_adapter_def quiet_world_def Let_def ack_create_conn_def opcode_of_def
          frame_slice_def reslice_def idx_def decode_event_def on_CMD_STATUS_def
          elapsed_seconds_def Connect_loop_silent del: Connect_loop.simps)
  qed
qed

text \<open>
  Claim C1 fails on the code. With the create-connection command acknowledged and the
  transport silent afterwards, on a clock that advances by one second at each reading,
  \<^verbatim>\<open>Connect\<close> is still in its loop when the fuel ends, for every amount of fuel: the
  sixth and all later readings are more than 5 seconds after the start, and the \<^verbatim>\<open>break\<close>
  they reach leaves the \<^verbatim>\<open>switch\<close>, not the loop. On no input at all does \<^verbatim>\<open>Connect\<close>
  return \<^verbatim>\<open>ErrConnect\<close>.
\<close>

theorem Connect_never_times_out:
  "returned (leCreateConn (Suc (Suc k)) 0x0060 0x0030 0x00 (addr_typ addr) (makeNINAAddress (MAC addr))
              0x00 0x0006 0x000c 0x0000 0x00c8 0x0004 0x0006 (a_hci fresh_adapter)
              (quiet_world\<lparr>rx := map Some ack_create_conn\<rparr>)) = Inr None
   \<and> Connect n addr fresh_adapter (quiet_world\<lparr>rx := map Some ack_create_conn\<rparr>) = Inl OutOfFuel
   \<and> Connect n addr a w \<noteq> Inr ((d, Some ErrConnect), a', w')"
proof -
  have "returned (leCreateConn (Suc (Suc k)) 0x0060 0x0030 0x00 (addr_typ addr)
              (makeNINAAddress (MAC addr))
              0x00 0x0006 0x000c 0x0000 0x00c8 0x0004 0x0006 (a_hci fresh_adapter)
              (quiet_world\<lparr>rx := map Some ack_create_conn\<rparr>)) = Inr None"
    by (simp add: returned_def leCreateConn_def le16_def uart_Write_def time_now_def
        fresh_adapter_def quiet_world_def Let_def ack_create_conn_def opcode_of_def
        frame_slice_def reslice_def idx_def decode_event_def on_CMD_STATUS_def
        elapsed_seconds_def)
  then show ?thesis
    using Connect_acknowledged_then_silent [of n addr] Connect_never_ErrConnect [of n addr a w d a' w']
    by simp
qed

subsection \<open>The status of a connection-complete event\<close>

text \<open>
  A whole event frame waiting in the transport is assembled and decoded by one call of
  \<^verbatim>\<open>poll\<close>.
\<close>

lemma poll_event_frame_rx:
  assumes "length (buf h) = 256" and "f = HCI_EVENT_PKT # evt # ln # payload"
    and "length payload = unat ln" and "1 \<le> unat ln" and "unat ln \<le> 252"
    and "rx w = map Some f @ rest"
  shows "poll n h w =
         handleEventData n \<lparr>off = 1, len = 2 + unat ln, cap = 255\<rparr>
           (h\<lparr>buf := f @ drop (length f) (buf h)\<rparr>) (w\<lparr>rx := rest\<rparr>)"
proof -
  have "w\<lparr>rx := map Some f @ rest\<rparr> = w" using assms(6) by simp
  then show ?thesis
    using poll_event_frame [OF assms(1-5), where n = n and w = w and rest = rest] by simp
qed

text \<open>
  The connection-complete case of the decoder, on every slice: it reads \<^verbatim>\<open>buf[3]\<close> to
  \<^verbatim>\<open>buf[7]\<close> and \<^verbatim>\<open>buf[8:14]\<close>, so it returns when the slice has 8 bytes and a capacity of
  14, and panics otherwise. No branch depends on \<^verbatim>\<open>buf[3]\<close>, the status.
\<close>

lemma on_CONN_COMPLETE_total:
  "on_CONN_COMPLETE s h =
     (if 8 \<le> len s \<and> 14 \<le> cap s then
        Inr (None,
          h\<lparr>connectData :=
              \<lparr>connected = True, conn_status = buf h ! (off s + 3),
               handle = ucast (buf h ! (off s + 4)) OR push_bit 8 (ucast (buf h ! (off s + 5))),
               role = buf h ! (off s + 6), conn_peerBdaddrType = buf h ! (off s + 7),
               conn_peerBdaddr =
                 copy_bytes (conn_peerBdaddr (connectData h)) (take 6 (drop (off s + 8) (buf h)))\<rparr>\<rparr>)
      else Inl Panic)"
  by (simp add: on_CONN_COMPLETE_def idx_def reslice_def bytes_of_def)

lemma handleEventData_conn_complete:
  assumes "idx (buf h) s 0 = Some EVT_LE_META_EVENT" and "idx (buf h) s 2 = Some sub"
    and "sub = LE_META_EVENT_CONN_COMPLETE \<or> sub = LE_META_EVENT_ENHANCED_CONNECTION_COMPLETE"
  shows "handleEventData n s h w =
     (if 8 \<le> len s \<and> 14 \<le> cap s then
        Inr (None,
          h\<lparr>connectData :=
              \<lparr>connected = True, conn_status = buf h ! (off s + 3),
               handle = ucast (buf h ! (off s + 4)) OR push_bit 8 (ucast (buf h ! (off s + 5))),
               role = buf h ! (off s + 6), conn_peerBdaddrType = buf h ! (off s + 7),
               conn_peerBdaddr =
                 copy_bytes (conn_peerBdaddr (connectData h)) (take 6 (drop (off s + 8) (buf h)))\<rparr>\<rparr>, w)
      else Inl Panic)"
proof -
  have "2 < len s" using assms(2) by (simp add: idx_def split: if_splits)
  then have "idx (buf h) s 1 \<noteq> None" by (simp add: idx_def)
  then obtain plen where plen: "idx (buf h) s 1 = Some plen" by auto
  have "decode_event EVT_LE_META_EVENT plen s h = on_CONN_COMPLETE s h"
    using assms(2,3) by (auto simp: decode_event_def on_LE_META_EVENT_def)
  then have "handleEventData n s h w =
      (case on_CONN_COMPLETE s h of Inl a \<Rightarrow> Inl a | Inr (err, h) \<Rightarrow> Inr (err, h, w))"
    using assms(1) plen by simp
  then show ?thesis
    by (simp add: on_CONN_COMPLETE_total)
qed

text \<open>
  \<^verbatim>\<open>leCreateConn\<close> when the controller acknowledges the command with a command-status
  event: the waiting loop of \<^verbatim>\<open>sendCommandWithParams\<close> ends after one \<^verbatim>\<open>poll\<close>, and the
  Connection State Slot is as it was.
\<close>

lemma sendCommand_wait_acknowledged:
  assumes "length (buf h) = 256" and "cmdCompleteOpcode h \<noteq> 0x200d"
    and "rx w = map Some ack_create_conn @ rest"
    and "elapsed_seconds (clock w (ticks w)) start \<le> 3"
  shows "sendCommand_wait (Suc (Suc k)) 0x200d start h w =
     Inr (None,
       h\<lparr>buf := ack_create_conn @ drop (length ack_create_conn) (buf h), cmdCompleteStatus := 0,
         cmdCompleteOpcode := 0x200d, cmdResponse := \<lparr>off = 1, len = 0, cap = 255\<rparr>\<rparr>,
       w\<lparr>rx := rest, ticks := Suc (ticks w)\<rparr>)"
proof -
  have p: "poll (Suc k) h w =
      handleEventData (Suc k) \<lparr>off = 1, len = 2 + unat (4 :: byte), cap = 255\<rparr>
        (h\<lparr>buf := ack_create_conn @ drop (length ack_create_conn) (buf h)\<rparr>) (w\<lparr>rx := rest\<rparr>)"
    by (rule poll_event_frame_rx [where evt = "0x0f" and payload = "[0x00, 0x01, 0x0d, 0x20]"])
      (simp_all add: assms ack_create_conn_def)
  have q: "handleEventData (Suc k) \<lparr>off = 1, len = 2 + unat (4 :: byte), cap = 255\<rparr>
        (h\<lparr>buf := ack_create_conn @ drop (length ack_create_conn) (buf h)\<rparr>) (w\<lparr>rx := rest\<rparr>) =
      Inr (None,
        h\<lparr>buf := ack_create_conn @ drop (length ack_create_conn) (buf h),
             cmdCompleteStatus := 0, cmdCompleteOpcode := 0x200d,
             cmdResponse := \<lparr>off = 1, len = 0, cap = 255\<rparr>\<rparr>, w\<lparr>rx := rest\<rparr>)"
    by (simp add: idx_def reslice_def decode_event_def on_CMD_STATUS_def ack_create_conn_def)
  have pq: "poll (Suc k) h w =
      Inr (None,
        h\<lparr>buf := ack_create_conn @ drop (length ack_create_conn) (buf h),
             cmdCompleteStatus := 0, cmdCompleteOpcode := 0x200d,
             cmdResponse := \<lparr>off = 1, len = 0, cap = 255\<rparr>\<rparr>, w\<lparr>rx := rest\<rparr>)"
    using p q by (simp only:)
  show ?thesis
    using assms(2,4)
    by (simp add: pq time_now_def del: poll.simps handleEventData.simps)
qed

lemma leCreateConn_acknowledged:
  assumes "length (buf h) = 256" and "rx w = map Some ack_create_conn @ rest"
    and "\<not> write_error w (length (tx w))"
    and "elapsed_seconds (clock w (Suc (ticks w))) (clock w (ticks w)) \<le> 3"
  shows "\<exists>h' w'. leCreateConn (Suc (Suc k)) i wi f pt p ot mi ma la st mc xc h w = Inr (None, h', w')
           \<and> rx w' = rest \<and> length (buf h') = 256 \<and> connectData h' = connectData h"
  using assms
  by (simp add: leCreateConn_def le16_def uart_Write_def time_now_def Let_def opcode_of_def
      sendCommand_wait_acknowledged ack_create_conn_def
      del: sendCommand_wait.simps)

text \<open>
  One call of \<^verbatim>\<open>poll\<close> on a connection-complete frame with status \<open>st\<close>, handle bytes
  \<open>hl\<close> and \<open>hh\<close>, role \<open>rl\<close>, peer address type \<open>pt\<close> and the remaining bytes \<open>rst\<close>.
\<close>

lemma poll_conn_complete:
  assumes len: "length (buf h) = 256"
    and frame: "frame = HCI_EVENT_PKT # EVT_LE_META_EVENT # plen # sub # st # hl # hh # rl # pt # rst"
    and plen: "unat plen = 6 + length rst" "unat plen \<le> 252"
    and sub: "sub = LE_META_EVENT_CONN_COMPLETE \<or> sub = LE_META_EVENT_ENHANCED_CONNECTION_COMPLETE"
    and rx: "rx w = map Some frame @ rest"
  shows "poll n h w =
     Inr (None,
       h\<lparr>buf := frame @ drop (length frame) (buf h),
         connectData :=
           \<lparr>connected = True, conn_status = st,
            handle = ucast hl OR push_bit 8 (ucast hh),
            role = rl, conn_peerBdaddrType = pt,
            conn_peerBdaddr =
              copy_bytes (conn_peerBdaddr (connectData h))
                (take 6 (rst @ drop (length frame) (buf h)))\<rparr>\<rparr>,
       w\<lparr>rx := rest\<rparr>)"
proof -
  let ?B = "frame @ drop (length frame) (buf h)"
  let ?s = "\<lparr>off = 1, len = 2 + unat plen, cap = 255\<rparr>"
  have p: "poll n h w = handleEventData n ?s (h\<lparr>buf := ?B\<rparr>) (w\<lparr>rx := rest\<rparr>)"
    by (rule poll_event_frame_rx
        [where evt = EVT_LE_META_EVENT and payload = "sub # st # hl # hh # rl # pt # rst"])
      (use len frame plen rx in simp_all)
  have i0: "idx (buf (h\<lparr>buf := ?B\<rparr>)) ?s 0 = Some EVT_LE_META_EVENT"
    and i2: "idx (buf (h\<lparr>buf := ?B\<rparr>)) ?s 2 = Some sub"
    using frame plen by (simp_all add: idx_def)
  note d = handleEventData_conn_complete [OF i0 i2 sub, where n = n and w = "w\<lparr>rx := rest\<rparr>"]
  show ?thesis
    unfolding p d using plen frame by simp
qed

lemma copy_bytes_same_length:
  "length src = length dst \<Longrightarrow> copy_bytes dst src = src"
  by (simp add: copy_bytes_def)

text \<open>
  \<^verbatim>\<open>Connect\<close> from its first statement to its \<^verbatim>\<open>return\<close>, when the controller acknowledges
  the command and then sends the connection-complete event.
\<close>

lemma Connect_on_connection_complete:
  assumes len: "length (buf (a_hci a)) = 256"
    and peer: "length (conn_peerBdaddr (connectData (a_hci a))) = 6"
    and frame: "frame = HCI_EVENT_PKT # EVT_LE_META_EVENT # plen # sub # st # hl # hh # rl # pt # rst"
    and plen: "unat plen = 6 + length rst" "unat plen \<le> 252"
    and sub: "sub = LE_META_EVENT_CONN_COMPLETE \<or> sub = LE_META_EVENT_ENHANCED_CONNECTION_COMPLETE"
    and rx: "rx w = map Some ack_create_conn @ map Some frame @ rest"
    and wr: "\<not> write_error w (length (tx w))"
    and clk: "elapsed_seconds (clock w (Suc (ticks w))) (clock w (ticks w)) \<le> 3"
  shows "\<exists>dev a' w'.
           Connect (Suc (Suc k)) addr a w = Inr ((Some dev, None), a', w')
         \<and> device_handle dev = ucast hl OR push_bit 8 (ucast hh)
         \<and> addr_typ (device_Address dev) = pt
         \<and> length (MAC (device_Address dev)) = 6
         \<and> take (length rst) (MAC (device_Address dev)) = take 6 rst
         \<and> \<not> connected (connectData (a_hci a')) \<and> rx w' = rest"
proof -
  obtain h1 w1 where cc: "leCreateConn (Suc (Suc k)) 0x0060 0x0030 0x00 (addr_typ addr)
        (makeNINAAddress (MAC addr)) 0x00 0x0006 0x000c 0x0000 0x00c8 0x0004 0x0006 (a_hci a) w =
        Inr (None, h1, w1)"
    and rx1: "rx w1 = map Some frame @ rest" and len1: "length (buf h1) = 256"
    and cd1: "connectData h1 = connectData (a_hci a)"
    using leCreateConn_acknowledged [OF len rx wr clk] by blast
  obtain start w2 where tn: "time_now w1 = (start, w2)" by (cases "time_now w1")
  then have rx2: "rx w2 = map Some frame @ rest" using rx1 by (auto simp: time_now_def)
  let ?X = "take 6 (rst @ drop (length frame) (buf h1))"
  have p: "poll (Suc k) h1 w2 =
     Inr (None,
       h1\<lparr>buf := frame @ drop (length frame) (buf h1),
         connectData :=
           \<lparr>connected = True, conn_status = st,
            handle = ucast hl OR push_bit 8 (ucast hh),
            role = rl, conn_peerBdaddrType = pt,
            conn_peerBdaddr = copy_bytes (conn_peerBdaddr (connectData h1)) ?X\<rparr>\<rparr>,
       w2\<lparr>rx := rest\<rparr>)"
    by (rule poll_conn_complete [OF len1 frame plen sub rx2])
  have lX: "length ?X = 6" using len1 frame plen by simp
  have mac: "makeAddress (copy_bytes (conn_peerBdaddr (connectData h1)) ?X) = ?X"
    using lX peer cd1 unfolding makeAddress_def
    by (simp only: copy_bytes_same_length length_replicate)
  have tk: "take (length rst) ?X = take 6 rst"
    by (simp add: min_def)
  show ?thesis
    using cc tn p mac tk lX
    by (simp add: Connect_def clearConnectData_def del: poll.simps Connect_loop.simps)
      (simp add: clearConnectData_def del: poll.simps)
qed

text \<open>
  Claim C9. Every LE connection-complete or enhanced-connection-complete event is
  decoded without a look at its status byte. On every slice that holds such an event
  the decoder either returns with \<^verbatim>\<open>connected\<close> set and the status stored as it came, or,
  when the slice is too short for the fields read (fewer than 8 bytes), panics: no
  connection-complete event leaves \<^verbatim>\<open>connected\<close> unset because of its status. \<^verbatim>\<open>Connect\<close>
  tests \<^verbatim>\<open>connected\<close> only: an iteration whose \<^verbatim>\<open>poll\<close> leaves the slot connected returns
  the device with a \<^verbatim>\<open>nil\<close> error, whatever status the slot holds. Consequently, when the
  controller acknowledges the create-connection command and then sends a
  connection-complete event with any status byte \<open>st\<close>, zero or not, \<^verbatim>\<open>Connect\<close> returns
  a \<^verbatim>\<open>Device\<close> built from the handle and the peer address of that event, with a \<^verbatim>\<open>nil\<close>
  error, and clears the slot.
\<close>

theorem connection_complete_ignores_status:
  "(idx (buf h) s 0 = Some EVT_LE_META_EVENT \<and> idx (buf h) s 2 = Some sub \<and>
    (sub = LE_META_EVENT_CONN_COMPLETE \<or> sub = LE_META_EVENT_ENHANCED_CONNECTION_COMPLETE) \<longrightarrow>
    handleEventData n s h w =
      (if 8 \<le> len s \<and> 14 \<le> cap s then
         Inr (None,
              h\<lparr>connectData :=
                  \<lparr>connected = True, conn_status = buf h ! (off s + 3),
                   handle = ucast (buf h ! (off s + 4)) OR push_bit 8 (ucast (buf h ! (off s + 5))),
                   role = buf h ! (off s + 6), conn_peerBdaddrType = buf h ! (off s + 7),
                   conn_peerBdaddr =
                     copy_bytes (conn_peerBdaddr (connectData h))
                       (take 6 (drop (off s + 8) (buf h)))\<rparr>\<rparr>, w)
       else Inl Panic))
 \<and> (poll m (a_hci b) v1 = Inr (None, h1, v2) \<and> connected (connectData h1) \<longrightarrow>
    Connect_loop (Suc m) start b v1 =
      Inr (Some (Some \<lparr>device_Address =
                          \<lparr>MAC = makeAddress (conn_peerBdaddr (connectData h1)),
                           addr_typ = conn_peerBdaddrType (connectData h1)\<rparr>,
                        device_handle = handle (connectData h1)\<rparr>, None),
           b\<lparr>a_hci := clearConnectData h1\<rparr>, v2))
 \<and> (length (buf (a_hci a)) = 256 \<and> length (conn_peerBdaddr (connectData (a_hci a))) = 6 \<and>
    unat plen = 6 + length rst \<and> unat plen \<le> 252 \<and>
    (sc = LE_META_EVENT_CONN_COMPLETE \<or> sc = LE_META_EVENT_ENHANCED_CONNECTION_COMPLETE) \<and>
    rx u = map Some ack_create_conn @
           map Some (HCI_EVENT_PKT # EVT_LE_META_EVENT # plen # sc # st # hl # hh # rl # pt # rst) @
           rest \<and>
    \<not> write_error u (length (tx u)) \<and>
    elapsed_seconds (clock u (Suc (ticks u))) (clock u (ticks u)) \<le> 3 \<longrightarrow>
    (\<exists>dev a' u'.
        Connect (Suc (Suc k)) addr a u = Inr ((Some dev, None), a', u')
      \<and> device_handle dev = ucast hl OR push_bit 8 (ucast hh)
      \<and> addr_typ (device_Address dev) = pt
      \<and> length (MAC (device_Address dev)) = 6
      \<and> take (length rst) (MAC (device_Address dev)) = take 6 rst
      \<and> \<not> connected (connectData (a_hci a')) \<and> rx u' = rest))"
proof (intro conjI impI)
  assume "idx (buf h) s 0 = Some EVT_LE_META_EVENT \<and> idx (buf h) s 2 = Some sub \<and>
    (sub = LE_META_EVENT_CONN_COMPLETE \<or> sub = LE_META_EVENT_ENHANCED_CONNECTION_COMPLETE)"
  then show "handleEventData n s h w =
      (if 8 \<le> len s \<and> 14 \<le> cap s then
         Inr (None,
              h\<lparr>connectData :=
                  \<lparr>connected = True, conn_status = buf h ! (off s + 3),
                   handle = ucast (buf h ! (off s + 4)) OR push_bit 8 (ucast (buf h ! (off s + 5))),
                   role = buf h ! (off s + 6), conn_peerBdaddrType = buf h ! (off s + 7),
                   conn_peerBdaddr =
                     copy_bytes (conn_peerBdaddr (connectData h))
                       (take 6 (drop (off s + 8) (buf h)))\<rparr>\<rparr>, w)
       else Inl Panic)"
    by (intro handleEventData_conn_complete) blast+
next
  assume "poll m (a_hci b) v1 = Inr (None, h1, v2) \<and> connected (connectData h1)"
  then show "Connect_loop (Suc m) start b v1 =
      Inr (Some (Some \<lparr>device_Address =
                          \<lparr>MAC = makeAddress (conn_peerBdaddr (connectData h1)),
                           addr_typ = conn_peerBdaddrType (connectData h1)\<rparr>,
                        device_handle = handle (connectData h1)\<rparr>, None),
           b\<lparr>a_hci := clearConnectData h1\<rparr>, v2)"
    by (simp del: poll.simps)
next
  assume "length (buf (a_hci a)) = 256 \<and> length (conn_peerBdaddr (connectData (a_hci a))) = 6 \<and>
    unat plen = 6 + length rst \<and> unat plen \<le> 252 \<and>
    (sc = LE_META_EVENT_CONN_COMPLETE \<or> sc = LE_META_EVENT_ENHANCED_CONNECTION_COMPLETE) \<and>
    rx u = map Some ack_create_conn @
           map Some (HCI_EVENT_PKT # EVT_LE_META_EVENT # plen # sc # st # hl # hh # rl # pt # rst) @
           rest \<and>
    \<not> write_error u (length (tx u)) \<and>
    elapsed_seconds (clock u (Suc (ticks u))) (clock u (ticks u)) \<le> 3"
  then show "\<exists>dev a' u'.
        Connect (Suc (Suc k)) addr a u = Inr ((Some dev, None), a', u')
      \<and> device_handle dev = ucast hl OR push_bit 8 (ucast hh)
      \<and> addr_typ (device_Address dev) = pt
      \<and> length (MAC (device_Address dev)) = 6
      \<and> take (length rst) (MAC (device_Address dev)) = take 6 rst
      \<and> \<not> connected (connectData (a_hci a')) \<and> rx u' = rest"
    by (intro Connect_on_connection_complete
          [where st = st and rl = rl and sub = sc and plen = plen and rst = rst and hl = hl
             and hh = hh and pt = pt and w = u and rest = rest and a = a, OF _ _ refl])
       simp_all
qed

text \<open>
  The controller acknowledges the command and reports status 0x3e (connection failed to
  be established) with handle 0x0040 and peer 01:02:03:04:05:06. The decoder stores the
  status and sets \<^verbatim>\<open>connected\<close>; the same event cut to 7 bytes panics; \<^verbatim>\<open>Connect\<close> returns
  the device with handle 0x0040 and a \<^verbatim>\<open>nil\<close> error.
\<close>

lemma conn_failed_poll:
  "\<exists>h1. poll 0 newHCI (quiet_world\<lparr>rx := map Some conn_failed\<rparr>) = Inr (None, h1, quiet_world)
     \<and> connected (connectData h1) \<and> conn_status (connectData h1) = 0x3e
     \<and> handle (connectData h1) = 0x0040 \<and> conn_peerBdaddr (connectData h1) = [1, 2, 3, 4, 5, 6]
     \<and> conn_peerBdaddrType (connectData h1) = 0"
  by (simp add: conn_failed_def quiet_world_def frame_slice_def reslice_def idx_def bytes_of_def
      copy_bytes_def decode_event_def on_LE_META_EVENT_def on_CONN_COMPLETE_def newHCI_def
      replicate_numeral list_update_numeral)

theorem connection_complete_ignores_status_witness:
  "(case handleEventData 0 \<lparr>off = 1, len = 21, cap = 255\<rparr>
           (newHCI\<lparr>buf := conn_failed @ replicate 234 0\<rparr>) quiet_world of
      Inl x \<Rightarrow> False
    | Inr (err, h', w') \<Rightarrow>
        err = None \<and> connected (connectData h') \<and> conn_status (connectData h') = 0x3e)
   \<and> handleEventData 0 \<lparr>off = 1, len = 7, cap = 255\<rparr>
        (newHCI\<lparr>buf := conn_failed @ replicate 234 0\<rparr>) quiet_world = Inl Panic
   \<and> returned (Connect_loop (Suc 0) 0 fresh_adapter (quiet_world\<lparr>rx := map Some conn_failed\<rparr>)) =
       Inr (Some (Some \<lparr>device_Address = \<lparr>MAC = [1, 2, 3, 4, 5, 6], addr_typ = 0\<rparr>,
                        device_handle = 0x0040\<rparr>, None))
   \<and> returned (Connect (Suc (Suc 0)) \<lparr>MAC = [1, 2, 3, 4, 5, 6], addr_typ = 0\<rparr> fresh_adapter
        (quiet_world\<lparr>rx := map Some ack_create_conn @ map Some conn_failed\<rparr>)) =
       Inr (Some \<lparr>device_Address = \<lparr>MAC = [1, 2, 3, 4, 5, 6], addr_typ = 0\<rparr>,
                  device_handle = 0x0040\<rparr>, None)"
proof -
  let ?h = "newHCI\<lparr>buf := conn_failed @ replicate 234 0\<rparr>"
  let ?s = "\<lparr>off = 1, len = 21, cap = 255\<rparr>"
  let ?t = "\<lparr>off = 1, len = 7, cap = 255\<rparr>"
  let ?u = "quiet_world\<lparr>rx := map Some ack_create_conn @ map Some conn_failed\<rparr>"
  let ?addr = "\<lparr>MAC = [1, 2, 3, 4, 5, 6], addr_typ = 0\<rparr>"
  obtain h1 where p: "poll 0 newHCI (quiet_world\<lparr>rx := map Some conn_failed\<rparr>) = Inr (None, h1, quiet_world)"
    and c: "connected (connectData h1)"
    and f: "handle (connectData h1) = 0x0040" "conn_peerBdaddr (connectData h1) = [1, 2, 3, 4, 5, 6]"
      "conn_peerBdaddrType (connectData h1) = 0"
    using conn_failed_poll by blast
  have p': "poll 0 (a_hci fresh_adapter) (quiet_world\<lparr>rx := map Some conn_failed\<rparr>) = Inr (None, h1, quiet_world)"
    using p by (simp add: fresh_adapter_def del: poll.simps)
  have i: "idx (buf ?h) ?s 0 = Some EVT_LE_META_EVENT" "idx (buf ?h) ?s 2 = Some LE_META_EVENT_CONN_COMPLETE"
    "idx (buf ?h) ?t 0 = Some EVT_LE_META_EVENT" "idx (buf ?h) ?t 2 = Some LE_META_EVENT_CONN_COMPLETE"
    by (simp_all add: idx_def conn_failed_def)
  have g: "length (buf (a_hci fresh_adapter)) = 256"
    "length (conn_peerBdaddr (connectData (a_hci fresh_adapter))) = 6"
    "unat (0x13 :: byte) = 6 + length [1, 2, 3, 4, 5, 6, 0x18, 0, 0, 0, 0xc8, 0, 0 :: byte]"
    "rx ?u = map Some ack_create_conn @
       map Some (HCI_EVENT_PKT # EVT_LE_META_EVENT # 0x13 # LE_META_EVENT_CONN_COMPLETE # 0x3e # 0x40 #
                 0 # 0 # 0 # [1, 2, 3, 4, 5, 6, 0x18, 0, 0, 0, 0xc8, 0, 0]) @ []"
    "\<not> write_error ?u (length (tx ?u))"
    "elapsed_seconds (clock ?u (Suc (ticks ?u))) (clock ?u (ticks ?u)) \<le> 3"
    by (simp_all add: fresh_adapter_def length_buf_newHCI newHCI_def conn_failed_def quiet_world_def
        elapsed_seconds_def)
  note t = connection_complete_ignores_status
  have d1: "handleEventData 0 ?s ?h quiet_world =
      Inr (None,
           ?h\<lparr>connectData :=
               \<lparr>connected = True, conn_status = buf ?h ! (off ?s + 3),
                handle = ucast (buf ?h ! (off ?s + 4)) OR push_bit 8 (ucast (buf ?h ! (off ?s + 5))),
                role = buf ?h ! (off ?s + 6), conn_peerBdaddrType = buf ?h ! (off ?s + 7),
                conn_peerBdaddr =
                  copy_bytes (conn_peerBdaddr (connectData ?h))
                    (take 6 (drop (off ?s + 8) (buf ?h)))\<rparr>\<rparr>, quiet_world)"
    using t [where h = ?h and s = ?s and sub = LE_META_EVENT_CONN_COMPLETE
          and n = 0 and w = quiet_world, THEN conjunct1] i(1,2)
    by (simp del: handleEventData.simps)
  have d2: "handleEventData 0 ?t ?h quiet_world = Inl Panic"
    using t [where h = ?h and s = ?t and sub = LE_META_EVENT_CONN_COMPLETE
          and n = 0 and w = quiet_world, THEN conjunct1] i(3,4)
    by (simp del: handleEventData.simps)
  have l: "Connect_loop (Suc 0) 0 fresh_adapter (quiet_world\<lparr>rx := map Some conn_failed\<rparr>) =
      Inr (Some (Some \<lparr>device_Address =
                          \<lparr>MAC = makeAddress (conn_peerBdaddr (connectData h1)),
                           addr_typ = conn_peerBdaddrType (connectData h1)\<rparr>,
                        device_handle = handle (connectData h1)\<rparr>, None),
           fresh_adapter\<lparr>a_hci := clearConnectData h1\<rparr>, quiet_world)"
    using t [where m = 0 and b = fresh_adapter
          and ?v1.0 = "quiet_world\<lparr>rx := map Some conn_failed\<rparr>" and ?h1.0 = h1
          and ?v2.0 = quiet_world and start = 0, THEN conjunct2, THEN conjunct1] p' c
    by (simp del: poll.simps Connect_loop.simps)
  obtain dev a' u' where e: "Connect (Suc (Suc 0)) ?addr fresh_adapter ?u = Inr ((Some dev, None), a', u')"
    and dv: "device_handle dev = ucast (0x40 :: byte) OR push_bit 8 (ucast (0 :: byte))"
      "addr_typ (device_Address dev) = 0" "length (MAC (device_Address dev)) = 6"
      "take (length [1, 2, 3, 4, 5, 6, 0x18, 0, 0, 0, 0xc8, 0, 0 :: byte]) (MAC (device_Address dev)) =
         take 6 [1, 2, 3, 4, 5, 6, 0x18, 0, 0, 0, 0xc8, 0, 0]"
    using t [where a = fresh_adapter and plen = "0x13"
          and rst = "[1, 2, 3, 4, 5, 6, 0x18, 0, 0, 0, 0xc8, 0, 0]"
          and sc = LE_META_EVENT_CONN_COMPLETE and u = ?u and st = "0x3e" and hl = "0x40"
          and hh = 0 and rl = 0 and pt = 0 and rest = "[]" and k = 0 and addr = ?addr,
          THEN conjunct2, THEN conjunct2] g
    by (auto simp del: Connect_loop.simps poll.simps)
  have m: "MAC (device_Address dev) = [1, 2, 3, 4, 5, 6]"
    using dv(3,4) by simp
  have dev: "dev = \<lparr>device_Address = \<lparr>MAC = [1, 2, 3, 4, 5, 6], addr_typ = 0\<rparr>, device_handle = 0x0040\<rparr>"
    using m dv(1,2) by (cases dev, cases "device_Address dev") simp
  show ?thesis
    using d1 d2 l e dev f
    by (simp add: returned_def makeAddress_def copy_bytes_def conn_failed_def
        del: poll.simps handleEventData.simps Connect_loop.simps)
qed

subsection \<open>Which reports reach the scan callback\<close>

lemmas scan_eval =
  surfaced_def record_and_stop_def fresh_adapter_def quiet_world_def newHCI_def
  replicate_numeral list_update_numeral frame_slice_def reslice_def idx_def bytes_of_def copy_bytes_def
  decode_event_def on_LE_META_EVENT_def on_ADVERTISING_REPORT_def Scan_switch_def Let_def
  clearAdvData_def makeAddress_def

text \<open>
  Claim C3 as stated fails: the filter of the scan loop is the other way round. Of a
  report of type 0x00 followed by a report of type 0x04, the callback is given the
  second one only.
\<close>

theorem scan_type_filter_counterexample:
  "surfaced (Scan_loop (Suc (Suc (Suc 0))) record_and_stop (fresh_adapter\<lparr>a_scanning := True\<rparr>)
     (quiet_world\<lparr>rx := map Some (adv_type0 @ adv_type4)\<rparr>)) =
   Inr [\<lparr>result_Address = \<lparr>MAC = [0xa1, 0xa2, 0xa3, 0xa4, 0xa5, 0xa6], addr_typ = 0\<rparr>, RSSI = 0xffce,
         AdvertisementPayload = \<lparr>LocalName = []\<rparr>\<rparr>]"
  by (simp add: scan_eval adv_type0_def adv_type4_def)

text \<open>
  Claim C3, as amended. In the scan loop a populated report is surfaced only if its type
  is 0x04: a report of any other type is cleared without a call of the callback (the
  callback does not occur in the result), and a report of type 0x04 whose EIR length is
  at most 64 and whose EIR fields are read within the 64-byte array is handed to the
  callback, after which the slot is cleared.
\<close>

theorem scan_surfaces_only_scan_responses:
  assumes "reported (advData (a_hci a))"
  shows "(adv_typ (advData (a_hci a)) \<noteq> 0x04 \<longrightarrow>
            Scan_switch cb a w = Inr (False, a\<lparr>a_hci := clearAdvData (a_hci a)\<rparr>, w))
       \<and> (adv_typ (advData (a_hci a)) = 0x04 \<and> eirLength (advData (a_hci a)) \<le> 64 \<and>
          eir_loop (eirData (advData (a_hci a))) (unat (eirLength (advData (a_hci a)))) 0
            \<lparr>LocalName = []\<rparr> = Inr adf \<longrightarrow>
            Scan_switch cb a w =
              (case cb \<lparr>result_Address =
                          \<lparr>MAC = makeAddress (adv_peerBdaddr (advData (a_hci a))),
                           addr_typ = adv_peerBdaddrType (advData (a_hci a))\<rparr>,
                        RSSI = scast (rssi (advData (a_hci a))),
                        AdvertisementPayload = adf\<rparr> (a, w) of
                 (a', w') \<Rightarrow> Inr (False, a'\<lparr>a_hci := clearAdvData (a_hci a')\<rparr>, w')))"
  using assms by (auto simp: Scan_switch_def Let_def simp del: eir_loop.simps)

theorem scan_surfaces_only_scan_responses_witness:
  "Scan_switch record_result (slot_adapter 0x00) quiet_world =
     Inr (False, (slot_adapter 0x00)\<lparr>a_hci := clearAdvData (a_hci (slot_adapter 0x00))\<rparr>, quiet_world)
   \<and> Scan_switch record_result (slot_adapter 0x04) quiet_world =
     Inr (False, (slot_adapter 0x04)\<lparr>a_hci := clearAdvData (a_hci (slot_adapter 0x04))\<rparr>,
          quiet_world\<lparr>seen :=
            [\<lparr>result_Address = \<lparr>MAC = [0xa1, 0xa2, 0xa3, 0xa4, 0xa5, 0xa6], addr_typ = 0\<rparr>,
              RSSI = 0xffce, AdvertisementPayload = \<lparr>LocalName = []\<rparr>\<rparr>]\<rparr>)"
proof -
  have r0: "reported (advData (a_hci (slot_adapter 0x00)))"
    and r4: "reported (advData (a_hci (slot_adapter 0x04)))"
    by (simp_all add: slot_adapter_def)
  have e: "eir_loop (eirData (advData (a_hci (slot_adapter 0x04))))
             (unat (eirLength (advData (a_hci (slot_adapter 0x04))))) 0 \<lparr>LocalName = []\<rparr> =
           Inr \<lparr>LocalName = []\<rparr>"
    by (simp add: slot_adapter_def)
  from scan_surfaces_only_scan_responses [OF r0, where cb = record_result and w = quiet_world]
    scan_surfaces_only_scan_responses [OF r4, where cb = record_result and w = quiet_world
      and adf = "\<lparr>LocalName = []\<rparr>"] e
  show ?thesis
    by (simp add: slot_adapter_def record_result_def makeAddress_def copy_bytes_def quiet_world_def
        del: eir_loop.simps)
qed

subsection \<open>The local name of an advertising report\<close>

text \<open>
  Claim C4 fails on the code. For the field \<^verbatim>\<open>len=5, tag=0x09, "Test"\<close> the loop takes
  \<^verbatim>\<open>eirData[i+2 : i+2+l]\<close>, five bytes and not \<open>len - 1 = 4\<close>: the name is \<^verbatim>\<open>"Test"\<close>
  followed by the byte after the field, a zero of the cleared array or, when the field
  is the last one of a report read from the transport, the RSSI byte.
\<close>

theorem eir_local_name_has_len_bytes:
  "eir_loop ([0x05, 0x09, 0x54, 0x65, 0x73, 0x74] @ replicate 58 0) 6 0 \<lparr>LocalName = []\<rparr> =
     Inr \<lparr>LocalName = [0x54, 0x65, 0x73, 0x74, 0x00]\<rparr>
   \<and> surfaced (Scan_loop (Suc (Suc 0)) record_and_stop (fresh_adapter\<lparr>a_scanning := True\<rparr>)
        (quiet_world\<lparr>rx := map Some adv_test_name\<rparr>)) =
     Inr [\<lparr>result_Address = \<lparr>MAC = [0xa1, 0xa2, 0xa3, 0xa4, 0xa5, 0xa6], addr_typ = 0\<rparr>, RSSI = 0xffce,
           AdvertisementPayload = \<lparr>LocalName = [0x54, 0x65, 0x73, 0x74, 0xce]\<rparr>\<rparr>]"
  by (simp add: scan_eval adv_test_name_def)

subsection \<open>Reports with an EIR length of 64 or more\<close>

text \<open>
  Claim C7 fails on the code at the boundary. A report of type 0x04 with a declared EIR
  length of exactly 64, in a packet long enough for it, is neither cleared by the decoder
  (which copies the payload only when the length is below 64) nor by the scan loop
  (which discards only above 64): the callback is called, with the payload the slot
  held before.
\<close>

theorem eir_length_64_is_surfaced:
  "surfaced (Scan_loop (Suc (Suc 0)) record_and_stop (fresh_adapter\<lparr>a_scanning := True\<rparr>)
     (quiet_world\<lparr>rx := map Some adv64_frame\<rparr>)) =
   Inr [\<lparr>result_Address = \<lparr>MAC = [0xa1, 0xa2, 0xa3, 0xa4, 0xa5, 0xa6], addr_typ = 0\<rparr>, RSSI = 0,
         AdvertisementPayload = \<lparr>LocalName = []\<rparr>\<rparr>]"
  by (simp add: scan_eval adv64_frame_def)

text \<open>
  Above 64 the scan loop does discard the report. At 64 the decoder, for every packet
  that is long enough, leaves the slot reported with the payload it held before.
\<close>

lemma Scan_switch_discards_long_eir:
  "reported (advData (a_hci a)) \<Longrightarrow> eirLength (advData (a_hci a)) > 64 \<Longrightarrow>
   Scan_switch cb a w = Inr (False, a\<lparr>a_hci := clearAdvData (a_hci a)\<rparr>, w)"
  by (simp add: Scan_switch_def Let_def del: eir_loop.simps)

lemma advertising_report_64_stays_reported:
  assumes "78 \<le> len s" and "12 \<le> cap s" and "idx (buf h) s 12 = Some 64"
  shows "on_ADVERTISING_REPORT s h =
     Inr (None,
          h\<lparr>advData :=
              \<lparr>reported = True, adv_status = buf h ! (off s + 3), adv_typ = buf h ! (off s + 4),
               adv_peerBdaddrType = buf h ! (off s + 5),
               adv_peerBdaddr =
                 copy_bytes (adv_peerBdaddr (advData h)) (take 6 (drop (off s + 6) (buf h))),
               eirLength = 64, eirData = eirData (advData h), rssi = 0\<rparr>\<rparr>)"
  using assms by (simp add: on_ADVERTISING_REPORT_def idx_def reslice_def bytes_of_def Let_def)

subsection \<open>The length of an ACL-data frame\<close>

text \<open>
  Claim C5 fails on the code. The length bytes are added up as \<^verbatim>\<open>uint8\<close>: the high byte
  shifted by 8 is 0, so the full length is 5 plus the low byte. An ACL-data packet that
  declares 0x0101 = 257 bytes of payload is emitted after 6 bytes, by the current frame
  assembler and by the earlier one.
\<close>

theorem acl_length_uses_low_byte_only:
  "HCIACLHeaderLen + (ll OR push_bit 8 lh) = HCIACLHeaderLen + ll
   \<and> poll_loop 0 (buf newHCI) (map Some [0x02, 0x40, 0x00, 0x01, 0x01, 0xaa] @ rest) =
       (ACLFrame 6, (buf newHCI)[0 := 0x02, 1 := 0x40, 2 := 0x00, 3 := 0x01, 4 := 0x01, 5 := 0xaa], rest)
   \<and> poll_loop_v1 0 (buf newHCI) (map Some [0x02, 0x40, 0x00, 0x01, 0x01, 0xaa] @ rest) =
       (Inr (ACLFrame 6), (buf newHCI)[0 := 0x02, 1 := 0x40, 2 := 0x00, 3 := 0x01, 4 := 0x01, 5 := 0xaa], rest)"
  by (simp add: Let_def)

subsection \<open>Panics\<close>

text \<open>
  The command-complete case reads \<^verbatim>\<open>buf[3]\<close>, \<^verbatim>\<open>buf[4]\<close> and \<^verbatim>\<open>buf[5]\<close> whatever the
  length of the slice: every command-complete event of less than 6 bytes panics.
\<close>

lemma short_command_complete_panics:
  assumes "idx (buf h) s 0 = Some EVT_CMD_COMPLETE" and "len s < 6"
  shows "handleEventData n s h w = Inl Panic"
proof (cases "idx (buf h) s 1")
  case None
  with assms show ?thesis by simp
next
  case (Some plen)
  have "idx (buf h) s 5 = None" using assms(2) by (simp add: idx_def)
  then have "on_CMD_COMPLETE s plen h = Inl Panic"
    by (simp add: on_CMD_COMPLETE_def split: option.splits)
  with assms(1) Some show ?thesis by (simp add: decode_event_def)
qed

text \<open>
  Claim C2 fails on the code. A command-complete event with parameter length 3 is handed
  to \<^verbatim>\<open>handleEventData\<close> as a slice of length 5, and the read of \<^verbatim>\<open>buf[5]\<close> panics;
  \<^verbatim>\<open>sendCommandWithParams\<close> with 253 parameter bytes slices the 256-byte buffer up to
  257 and panics.
\<close>

theorem short_event_and_long_command_panic:
  "poll n newHCI (quiet_world\<lparr>rx := map Some [0x04, 0x0e, 0x03, 0x01, 0x03, 0x0c] @ rest\<rparr>) = Inl Panic
   \<and> sendCommandWithParams n opcode (replicate 253 0) newHCI quiet_world = Inl Panic"
  by (simp add: quiet_world_def frame_slice_def reslice_def idx_def decode_event_def on_CMD_COMPLETE_def Let_def)

end
